theory Spec2Isabelle
  imports Main "HOL-Library.Sublist" "HOL-Library.AList"
begin

section \<open>Ranger audit restore: a model of restore.py\<close>

text \<open>
  The script downloads date-partitioned Ranger audit logs from a cloud store into a local
  staging directory, posts every staged file to Solr as a JSON array and removes the staging
  files afterwards. The definitions below follow restore.py function by function. Python
  strings are HOL strings whose characters are the code points below 256; on these the regular
  expression class \<open>\d\<close> is exactly the set of ASCII digits.
\<close>

subsection \<open>Exceptions\<close>

text \<open>
  The exception classes the script can meet. \<open>OSError\<close> stands for the class and its
  subclasses (FileExistsError, NotADirectoryError, IsADirectoryError); \<open>ClientError\<close> is
  a failed download reported by the cloud SDK; \<open>JSONDecodeError\<close> is the subclass of
  ValueError that json.loads raises; \<open>HTTPError\<close> is what raise_for_status raises and
  \<open>ConnectionError\<close> what requests.post raises when no response arrives.
  SystemExit and KeyboardInterrupt derive from BaseException only.
\<close>

datatype exn =
    ValueError
  | OverflowError
  | IndexError
  | OSError
  | ClientError
  | JSONDecodeError
  | HTTPError
  | ConnectionError
  | RecursionError
  | SystemExit
  | KeyboardInterrupt

text \<open>\<open>isinstance(e, Exception)\<close>: what the clause \<open>except Exception\<close> catches.\<close>

fun is_Exception :: "exn \<Rightarrow> bool" where
  "is_Exception SystemExit = False"
| "is_Exception KeyboardInterrupt = False"
| "is_Exception _ = True"

subsection \<open>String operations of Python used by the script\<close>

text \<open>\<open>sub in s\<close> on strings: \<open>sub\<close> occurs in \<open>s\<close> as a contiguous substring.\<close>

fun py_in :: "string \<Rightarrow> string \<Rightarrow> bool" where
  "py_in sub [] = (sub = [])"
| "py_in sub (c # cs) = (prefix sub (c # cs) \<or> py_in sub cs)"

text \<open>\<open>s.split(sep)\<close> for a separator of one character; the result is never empty.\<close>

fun split_chr :: "char \<Rightarrow> string \<Rightarrow> string list" where
  "split_chr sep [] = [[]]"
| "split_chr sep (c # cs) =
     (if c = sep then [] # split_chr sep cs
      else (case split_chr sep cs of
              w # ws \<Rightarrow> (c # w) # ws
            | [] \<Rightarrow> [[c]]))"

text \<open>\<open>xs[i]\<close>: an index below zero counts from the end, and an index outside the list is an IndexError.\<close>

definition py_getitem :: "'a list \<Rightarrow> int \<Rightarrow> exn + 'a" where
  "py_getitem xs i =
     (if 0 \<le> i \<and> i < int (length xs) then Inr (xs ! nat i)
      else if i < 0 \<and> - int (length xs) \<le> i then Inr (xs ! nat (int (length xs) + i))
      else Inl IndexError)"

text \<open>\<open>s.rstrip('\n')\<close>: every trailing newline is removed.\<close>

definition rstrip_nl :: "string \<Rightarrow> string" where
  "rstrip_nl s = rev (dropWhile (\<lambda>c. c = CHR 0x0A) (rev s))"

text \<open>\<open>s.lower()\<close> on code points below 256: A-Z, and the Latin-1 capitals.\<close>

definition lower_chr :: "char \<Rightarrow> char" where
  "lower_chr c =
     (let n = (of_char c :: nat)
      in if (65 \<le> n \<and> n \<le> 90) \<or> (192 \<le> n \<and> n \<le> 222 \<and> n \<noteq> 215)
         then char_of (n + 32) else c)"

definition lower :: "string \<Rightarrow> string" where
  "lower s = map lower_chr s"

subsection \<open>Calendar dates (datetime.date)\<close>

text \<open>
  A date is held as its proleptic Gregorian ordinal (\<open>date.toordinal()\<close>: day 1 is
  0001-01-01 and \<open>date.max\<close>, 9999-12-31, is day 3652059). Comparison of dates is comparison
  of ordinals, and adding a timedelta adds its days to the ordinal.
\<close>

type_synonym date = int

definition is_leap :: "int \<Rightarrow> bool" where
  "is_leap y = (y mod 4 = 0 \<and> (y mod 100 \<noteq> 0 \<or> y mod 400 = 0))"

definition days_in_month :: "int \<Rightarrow> int \<Rightarrow> int" where
  "days_in_month y m =
     (if m = 2 \<and> is_leap y then 29
      else [31, 28, 31, 30, 31, 30, 31, 31, 30, 31, 30, 31] ! nat (m - 1))"

definition days_before_year :: "int \<Rightarrow> int" where
  "days_before_year year =
     (let y = year - 1 in y * 365 + y div 4 - y div 100 + y div 400)"

definition days_before_month :: "int \<Rightarrow> int \<Rightarrow> int" where
  "days_before_month y m =
     [0, 31, 59, 90, 120, 151, 181, 212, 243, 273, 304, 334] ! nat (m - 1)
       + (if m > 2 \<and> is_leap y then 1 else 0)"

definition ymd2ord :: "int \<Rightarrow> int \<Rightarrow> int \<Rightarrow> int" where
  "ymd2ord y m d = days_before_year y + days_before_month y m + d"

definition MINYEAR :: int where "MINYEAR = 1"
definition MAXYEAR :: int where "MAXYEAR = 9999"
definition MAXORDINAL :: int where "MAXORDINAL = 3652059"

text \<open>The constructor \<open>date(year, month, day)\<close> with its range checks.\<close>

definition py_date :: "int \<Rightarrow> int \<Rightarrow> int \<Rightarrow> exn + date" where
  "py_date y m d =
     (if \<not> (MINYEAR \<le> y \<and> y \<le> MAXYEAR) then Inl ValueError
      else if \<not> (1 \<le> m \<and> m \<le> 12) then Inl ValueError
      else if \<not> (1 \<le> d \<and> d \<le> days_in_month y m) then Inl ValueError
      else Inr (ymd2ord y m d))"

text \<open>
  \<open>d - timedelta(days=n)\<close>: the timedelta constructor refuses more than 999999999 days,
  and the subtraction refuses a result outside \<open>date.min .. date.max\<close>.
\<close>

definition sub_days :: "date \<Rightarrow> int \<Rightarrow> exn + date" where
  "sub_days d n =
     (if \<bar>n\<bar> > 999999999 then Inl OverflowError
      else if 1 \<le> d - n \<and> d - n \<le> MAXORDINAL then Inr (d - n)
      else Inl OverflowError)"

subsection \<open>datetime.strptime with the format %Y%m%d\<close>

text \<open>
  strptime compiles the format into the regular expression
  \<^verbatim>\<open>(?P<Y>\d\d\d\d)(?P<m>1[0-2]|0[1-9]|[1-9])(?P<d>3[0-1]|[1-2]\d|0[1-9]|[1-9]| [1-9])\<close>,
  matches it at the start of the string, refuses a match that leaves characters over, and
  builds the date from the three groups. The alternatives are tried in the order written,
  with backtracking; \<open>match_m\<close> and \<open>match_d\<close> list the ways a group can match, in that
  order, each with the rest of the input.
\<close>

definition is_digit :: "char \<Rightarrow> bool" where
  "is_digit c = (48 \<le> (of_char c :: nat) \<and> (of_char c :: nat) \<le> 57)"

definition digit_val :: "char \<Rightarrow> int" where
  "digit_val c = int (of_char c) - 48"

definition in_range :: "char \<Rightarrow> char \<Rightarrow> char \<Rightarrow> bool" where
  "in_range lo hi c = ((of_char lo :: nat) \<le> of_char c \<and> (of_char c :: nat) \<le> of_char hi)"

definition two_chars :: "(char \<Rightarrow> bool) \<Rightarrow> (char \<Rightarrow> bool) \<Rightarrow> string \<Rightarrow> (int \<times> string) list" where
  "two_chars p q s =
     (case s of
        a # b # r \<Rightarrow> if p a \<and> q b then [(10 * (if is_digit a then digit_val a else 0) + digit_val b, r)]
                     else []
      | _ \<Rightarrow> [])"

definition one_char :: "(char \<Rightarrow> bool) \<Rightarrow> string \<Rightarrow> (int \<times> string) list" where
  "one_char p s = (case s of a # r \<Rightarrow> if p a then [(digit_val a, r)] else [] | _ \<Rightarrow> [])"

definition match_m :: "string \<Rightarrow> (int \<times> string) list" where
  "match_m s =
     two_chars (\<lambda>c. c = CHR ''1'') (in_range CHR ''0'' CHR ''2'') s
     @ two_chars (\<lambda>c. c = CHR ''0'') (in_range CHR ''1'' CHR ''9'') s
     @ one_char (in_range CHR ''1'' CHR ''9'') s"

definition match_d :: "string \<Rightarrow> (int \<times> string) list" where
  "match_d s =
     two_chars (\<lambda>c. c = CHR ''3'') (in_range CHR ''0'' CHR ''1'') s
     @ two_chars (in_range CHR ''1'' CHR ''2'') is_digit s
     @ two_chars (\<lambda>c. c = CHR ''0'') (in_range CHR ''1'' CHR ''9'') s
     @ one_char (in_range CHR ''1'' CHR ''9'') s
     @ two_chars (\<lambda>c. c = CHR '' '') (in_range CHR ''1'' CHR ''9'') s"

definition match_Y :: "string \<Rightarrow> (int \<times> string) list" where
  "match_Y s =
     (case s of
        a # b # c # d # r \<Rightarrow>
          if is_digit a \<and> is_digit b \<and> is_digit c \<and> is_digit d
          then [(1000 * digit_val a + 100 * digit_val b + 10 * digit_val c + digit_val d, r)]
          else []
      | _ \<Rightarrow> [])"

text \<open>All matches of the whole expression in backtracking order; \<open>re.match\<close> takes the first.\<close>

definition regex_Ymd :: "string \<Rightarrow> (int \<times> int \<times> int \<times> string) list" where
  "regex_Ymd s =
     concat (map (\<lambda>(y, r1).
       concat (map (\<lambda>(m, r2).
         map (\<lambda>(d, r3). (y, m, d, r3)) (match_d r2)) (match_m r1))) (match_Y s))"

definition strptime_Ymd :: "string \<Rightarrow> exn + date" where
  "strptime_Ymd s =
     (case regex_Ymd s of
        [] \<Rightarrow> Inl ValueError
      | (y, m, d, rest) # _ \<Rightarrow>
          if rest \<noteq> [] then Inl ValueError else py_date y m d)"

subsection \<open>The date window\<close>

text \<open>
  \<open>get_days_ago_date\<close> reads the clock; \<open>today\<close> is the date \<open>datetime.now()\<close> has
  while the script runs.
\<close>

definition get_days_ago_date :: "date \<Rightarrow> int \<Rightarrow> exn + date" where
  "get_days_ago_date today days_ago = sub_days today days_ago"

text \<open>The bare \<open>except\<close> turns every failure of strptime into False.\<close>

definition is_date_str :: "string \<Rightarrow> bool" where
  "is_date_str potential_date_str =
     (case strptime_Ymd potential_date_str of Inl _ \<Rightarrow> False | Inr _ \<Rightarrow> True)"

definition is_later_date :: "date \<Rightarrow> string \<Rightarrow> int \<Rightarrow> exn + bool" where
  "is_later_date today potential_date_str days_ago =
     (if \<not> is_date_str potential_date_str then Inr False
      else case strptime_Ymd potential_date_str of
             Inl e \<Rightarrow> Inl e
           | Inr new_date \<Rightarrow>
               (case get_days_ago_date today days_ago of
                  Inl e \<Rightarrow> Inl e
                | Inr date_N_days_ago \<Rightarrow> Inr (new_date \<ge> date_N_days_ago)))"


subsection \<open>json.loads\<close>

text \<open>
  A JSON value as json.loads returns it: an object is a dict (a later duplicate key replaces
  the value of the earlier one), an integer is unbounded, a number with a fraction or an
  exponent is kept as its numeral, and a string is its list of code points. \<open>NaN\<close>,
  \<open>Infinity\<close> and \<open>-Infinity\<close> are accepted, as json.loads does by default. The decoder
  is the recursive descent of the json module; the first argument of \<open>scan_once\<close> bounds the
  number of nested calls.
\<close>

definition digits_val :: "string \<Rightarrow> int" where
  "digits_val s = foldl (\<lambda>acc c. 10 * acc + digit_val c) 0 s"

datatype json =
    JNull
  | JBool bool
  | JInt int
  | JFloat string
  | JString "nat list"
  | JArray "json list"
  | JObject "(nat list \<times> json) list"

definition is_ws :: "char \<Rightarrow> bool" where
  "is_ws c = (c = CHR '' '' \<or> c = CHR 0x09 \<or> c = CHR 0x0A \<or> c = CHR 0x0D)"

definition skip_ws :: "string \<Rightarrow> string" where
  "skip_ws s = dropWhile is_ws s"

definition hex_val :: "char \<Rightarrow> nat option" where
  "hex_val c =
     (let n = (of_char c :: nat)
      in if 48 \<le> n \<and> n \<le> 57 then Some (n - 48)
         else if 97 \<le> n \<and> n \<le> 102 then Some (n - 87)
         else if 65 \<le> n \<and> n \<le> 70 then Some (n - 55)
         else None)"

definition hex4 :: "string \<Rightarrow> nat option" where
  "hex4 s =
     (case map hex_val s of
        [Some a, Some b, Some c, Some d] \<Rightarrow> Some (4096 * a + 256 * b + 16 * c + d)
      | _ \<Rightarrow> None)"

definition unescape :: "char \<Rightarrow> nat option" where
  "unescape e =
     (if e = CHR 0x22 then Some 0x22
      else if e = CHR 0x5C then Some 0x5C
      else if e = CHR ''/'' then Some 0x2F
      else if e = CHR ''b'' then Some 0x08
      else if e = CHR ''f'' then Some 0x0C
      else if e = CHR ''n'' then Some 0x0A
      else if e = CHR ''r'' then Some 0x0D
      else if e = CHR ''t'' then Some 0x09
      else None)"

definition cons_chr :: "nat \<Rightarrow> exn + (nat list \<times> string) \<Rightarrow> exn + (nat list \<times> string)" where
  "cons_chr u res = (case res of Inl e \<Rightarrow> Inl e | Inr (us, r) \<Rightarrow> Inr (u # us, r))"

function scanstring :: "string \<Rightarrow> exn + (nat list \<times> string)" where
  "scanstring [] = Inl JSONDecodeError"
| "scanstring (c # cs) =
     (if c = CHR 0x22 then Inr ([], cs)
      else if c = CHR 0x5C then
        (case cs of
           [] \<Rightarrow> Inl JSONDecodeError
         | e # r \<Rightarrow>
             if e = CHR ''u'' then
               (case hex4 (take 4 r) of
                  None \<Rightarrow> Inl JSONDecodeError
                | Some u \<Rightarrow>
                    if 0xD800 \<le> u \<and> u \<le> 0xDBFF \<and> 10 < length r
                       \<and> take 2 (drop 4 r) = [CHR 0x5C, CHR ''u'']
                    then (case hex4 (take 4 (drop 6 r)) of
                            None \<Rightarrow> Inl JSONDecodeError
                          | Some u2 \<Rightarrow>
                              if 0xDC00 \<le> u2 \<and> u2 \<le> 0xDFFF
                              then cons_chr (0x10000 + (u - 0xD800) * 1024 + (u2 - 0xDC00))
                                     (scanstring (drop 10 r))
                              else cons_chr u (scanstring (drop 4 r)))
                    else cons_chr u (scanstring (drop 4 r)))
             else (case unescape e of
                     None \<Rightarrow> Inl JSONDecodeError
                   | Some u \<Rightarrow> cons_chr u (scanstring r)))
      else if (of_char c :: nat) < 32 then Inl JSONDecodeError
      else cons_chr (of_char c) (scanstring cs))"
  by pat_completeness auto
termination
  by (relation "measure length") auto

definition match_number :: "string \<Rightarrow> exn + (json \<times> string)" where
  "match_number s =
     (let neg = (s \<noteq> [] \<and> hd s = CHR ''-'');
          s1 = (if neg then tl s else s);
          ipart = (if s1 \<noteq> [] \<and> hd s1 = CHR ''0'' then [CHR ''0'']
                   else takeWhile is_digit s1);
          s2 = drop (length ipart) s1;
          frac = (case s2 of
                    d # f # _ \<Rightarrow> if d = CHR ''.'' \<and> is_digit f
                                 then d # takeWhile is_digit (tl s2) else []
                  | _ \<Rightarrow> []);
          s3 = drop (length frac) s2;
          ex = (case s3 of
                  e # t \<Rightarrow>
                    if e = CHR ''e'' \<or> e = CHR ''E'' then
                      (let sg = (if t \<noteq> [] \<and> (hd t = CHR ''+'' \<or> hd t = CHR ''-'') then [hd t] else []);
                           ds = takeWhile is_digit (drop (length sg) t)
                       in if ds = [] then [] else e # sg @ ds)
                    else []
                | [] \<Rightarrow> []);
          s4 = drop (length ex) s3
      in if ipart = [] then Inl JSONDecodeError
         else if frac = [] \<and> ex = []
           then Inr (JInt (if neg then - digits_val ipart else digits_val ipart), s4)
           else Inr (JFloat ((if neg then ''-'' else []) @ ipart @ frac @ ex), s4))"

definition dict_set :: "'k \<Rightarrow> 'v \<Rightarrow> ('k \<times> 'v) list \<Rightarrow> ('k \<times> 'v) list" where
  "dict_set k v kvs =
     (if k \<in> fst ` set kvs then map (\<lambda>(k', v'). if k' = k then (k', v) else (k', v')) kvs
      else kvs @ [(k, v)])"

datatype head = Done "exn + (json \<times> string)" | OpenObject string | OpenArray string

definition scan_head :: "string \<Rightarrow> head" where
  "scan_head s =
     (case s of
        [] \<Rightarrow> Done (Inl JSONDecodeError)
      | c # r \<Rightarrow>
          if c = CHR 0x22 then
            Done (case scanstring r of Inl e \<Rightarrow> Inl e | Inr (str, r') \<Rightarrow> Inr (JString str, r'))
          else if c = CHR ''{'' then
            (case skip_ws r of
               [] \<Rightarrow> Done (Inl JSONDecodeError)
             | d # r1 \<Rightarrow> if d = CHR ''}'' then Done (Inr (JObject [], r1)) else OpenObject (d # r1))
          else if c = CHR ''['' then
            (case skip_ws r of
               [] \<Rightarrow> Done (Inl JSONDecodeError)
             | d # r1 \<Rightarrow> if d = CHR '']'' then Done (Inr (JArray [], r1)) else OpenArray (d # r1))
          else if prefix ''null'' s then Done (Inr (JNull, drop 4 s))
          else if prefix ''true'' s then Done (Inr (JBool True, drop 4 s))
          else if prefix ''false'' s then Done (Inr (JBool False, drop 5 s))
          else if prefix ''NaN'' s then Done (Inr (JFloat ''NaN'', drop 3 s))
          else if prefix ''Infinity'' s then Done (Inr (JFloat ''Infinity'', drop 8 s))
          else if prefix ''-Infinity'' s then Done (Inr (JFloat ''-Infinity'', drop 9 s))
          else Done (match_number s))"

datatype after = More string | Closed string | Bad

definition after_item :: "char \<Rightarrow> string \<Rightarrow> after" where
  "after_item close r =
     (case skip_ws r of
        [] \<Rightarrow> Bad
      | c # r1 \<Rightarrow> if c = close then Closed r1
                  else if c = CHR '','' then More (skip_ws r1)
                  else Bad)"

definition object_key :: "string \<Rightarrow> exn + (nat list \<times> string)" where
  "object_key s =
     (case s of
        [] \<Rightarrow> Inl JSONDecodeError
      | q # r \<Rightarrow>
          if q \<noteq> CHR 0x22 then Inl JSONDecodeError
          else (case scanstring r of
                  Inl e \<Rightarrow> Inl e
                | Inr (k, r1) \<Rightarrow>
                    (case skip_ws r1 of
                       [] \<Rightarrow> Inl JSONDecodeError
                     | c # r2 \<Rightarrow>
                         if c \<noteq> CHR '':'' then Inl JSONDecodeError
                         else Inr (k, skip_ws r2))))"

fun scan_once :: "nat \<Rightarrow> string \<Rightarrow> exn + (json \<times> string)"
and parse_array :: "nat \<Rightarrow> json list \<Rightarrow> string \<Rightarrow> exn + (json \<times> string)"
and parse_object :: "nat \<Rightarrow> (nat list \<times> json) list \<Rightarrow> string \<Rightarrow> exn + (json \<times> string)"
where
  "scan_once 0 s = Inl RecursionError"
| "scan_once (Suc n) s =
     (case scan_head s of
        Done res \<Rightarrow> res
      | OpenObject r \<Rightarrow> parse_object n [] r
      | OpenArray r \<Rightarrow> parse_array n [] r)"
| "parse_array 0 acc s = Inl RecursionError"
| "parse_array (Suc n) acc s =
     (case scan_once n s of
        Inl e \<Rightarrow> Inl e
      | Inr (v, r) \<Rightarrow>
          (case after_item CHR '']'' r of
             Bad \<Rightarrow> Inl JSONDecodeError
           | Closed r1 \<Rightarrow> Inr (JArray (acc @ [v]), r1)
           | More r1 \<Rightarrow> parse_array n (acc @ [v]) r1))"
| "parse_object 0 acc s = Inl RecursionError"
| "parse_object (Suc n) acc s =
     (case object_key s of
        Inl e \<Rightarrow> Inl e
      | Inr (k, r) \<Rightarrow>
          (case scan_once n r of
             Inl e \<Rightarrow> Inl e
           | Inr (v, r1) \<Rightarrow>
               (case after_item CHR ''}'' r1 of
                  Bad \<Rightarrow> Inl JSONDecodeError
                | Closed r2 \<Rightarrow> Inr (JObject (dict_set k v acc), r2)
                | More r2 \<Rightarrow> parse_object n (dict_set k v acc) r2)))"

definition json_loads :: "string \<Rightarrow> exn + json" where
  "json_loads s =
     (case scan_once (2 * length s + 2) (skip_ws s) of
        Inl e \<Rightarrow> Inl e
      | Inr (obj, r) \<Rightarrow> if skip_ws r = [] then Inr obj else Inl JSONDecodeError)"

text \<open>
  \<open>[json.loads(x) for x in xs]\<close>: the elements are converted in order and the first
  failure ends the comprehension.
\<close>

fun map_exn :: "('a \<Rightarrow> exn + 'b) \<Rightarrow> 'a list \<Rightarrow> exn + 'b list" where
  "map_exn f [] = Inr []"
| "map_exn f (x # xs) =
     (case f x of
        Inl e \<Rightarrow> Inl e
      | Inr y \<Rightarrow> (case map_exn f xs of Inl e \<Rightarrow> Inl e | Inr ys \<Rightarrow> Inr (y # ys)))"

subsection \<open>The staging directory, the console and the index\<close>

text \<open>
  The directory \<open>tmp_logs\<close> as the script can see it: it is absent, or a plain file, or a
  directory whose entries are files and partition directories; an entry of a partition
  directory is a file with its content or a subdirectory (which the script never enters).
  Entries are listed in the order \<open>os.scandir\<close> yields them, and names within a directory
  are distinct.
\<close>

datatype leaf = LFile string | LDir

datatype entry = EFile string | EDir "(string \<times> leaf) list"

datatype root = Absent | RFile | RDir "(string \<times> entry) list"

datatype out = Line string | Reported exn

record world =
  staging :: root
  stdout :: "out list"
  posts :: "(string \<times> json list) list"

definition print_line :: "string \<Rightarrow> world \<Rightarrow> world" where
  "print_line s w = w\<lparr>stdout := stdout w @ [Line s]\<rparr>"

definition print_exn :: "exn \<Rightarrow> world \<Rightarrow> world" where
  "print_exn ex w = w\<lparr>stdout := stdout w @ [Reported ex]\<rparr>"

text \<open>The world before a run: nothing is staged, printed or posted.\<close>

definition initial_world :: world where
  "initial_world = \<lparr>staging = Absent, stdout = [], posts = []\<rparr>"

text \<open>A \<open>for\<close> loop over a list whose body may raise: the first exception ends the loop.\<close>

fun for_each :: "('a \<Rightarrow> world \<Rightarrow> (exn + unit) \<times> world) \<Rightarrow> 'a list \<Rightarrow> world \<Rightarrow> (exn + unit) \<times> world" where
  "for_each body [] w = (Inr (), w)"
| "for_each body (x # xs) w =
     (case body x w of
        (Inl e, w') \<Rightarrow> (Inl e, w')
      | (Inr _, w') \<Rightarrow> for_each body xs w')"

text \<open>\<open>os.path.join(a, b)\<close>.\<close>

definition path_join :: "string \<Rightarrow> string \<Rightarrow> string" where
  "path_join a b =
     (if b \<noteq> [] \<and> hd b = CHR ''/'' then b
      else if a = [] \<or> last a = CHR ''/'' then a @ b
      else a @ ''/'' @ b)"

text \<open>
  \<open>Path(destination).mkdir(parents=True, exist_ok=True)\<close> for the partition directory
  \<open>label\<close> under the staging root.
\<close>

definition mkdir_parents :: "string \<Rightarrow> root \<Rightarrow> exn + root" where
  "mkdir_parents label r =
     (case r of
        Absent \<Rightarrow> Inr (RDir [(label, EDir [])])
      | RFile \<Rightarrow> Inl OSError
      | RDir es \<Rightarrow>
          (case map_of es label of
             None \<Rightarrow> Inr (RDir (es @ [(label, EDir [])]))
           | Some (EDir _) \<Rightarrow> Inr r
           | Some (EFile _) \<Rightarrow> Inl OSError))"

text \<open>
  Opening \<open>root/label/filename\<close> for writing and storing \<open>data\<close> in it: the file is
  created or overwritten; a directory of that name (also \<open>.\<close> and \<open>..\<close>) cannot be written.
\<close>

definition write_file :: "string \<Rightarrow> string \<Rightarrow> string \<Rightarrow> root \<Rightarrow> exn + root" where
  "write_file label filename data r =
     (case r of
        RDir es \<Rightarrow>
          (case map_of es label of
             Some (EDir fs) \<Rightarrow>
               if filename = ''.'' \<or> filename = ''..'' then Inl OSError
               else (case map_of fs filename of
                       Some LDir \<Rightarrow> Inl OSError
                     | _ \<Rightarrow> Inr (RDir (AList.update label
                                          (EDir (AList.update filename (LFile data) fs)) es)))
           | _ \<Rightarrow> Inl OSError)
      | _ \<Rightarrow> Inl OSError)"

subsection \<open>Fetching: download_s3_folder and download_blob_folder\<close>

text \<open>
  An object of the remote store: its key (S3) or name (Azure) and what a download of it
  returns, \<open>None\<close> when the SDK reports a failure.
\<close>

record remote_object =
  obj_key :: string
  obj_body :: "string option"

text \<open>\<open>sep.join(xs)\<close> and \<open>s.split(sep, maxsplit=1)\<close> for a separator of one character.\<close>

fun join_chr :: "char \<Rightarrow> string list \<Rightarrow> string" where
  "join_chr sep [] = []"
| "join_chr sep [x] = x"
| "join_chr sep (x # y # ys) = x @ sep # join_chr sep (y # ys)"

definition split_max1 :: "char \<Rightarrow> string \<Rightarrow> string list" where
  "split_max1 sep s =
     (if sep \<in> set s
      then [takeWhile (\<lambda>c. c \<noteq> sep) s, tl (dropWhile (\<lambda>c. c \<noteq> sep) s)]
      else [s])"

text \<open>
  The last lines of the loop body of download_s3_folder: the partition directory is made and
  \<open>bucket.download_file\<close> stores the object; a failed download leaves no file.
\<close>

definition s3_store :: "string \<Rightarrow> string \<Rightarrow> string \<Rightarrow> remote_object \<Rightarrow> world \<Rightarrow> (exn + unit) \<times> world" where
  "s3_store local_dir potential_date_str filename obj w =
     (let destination = path_join local_dir potential_date_str
      in case mkdir_parents potential_date_str (staging w) of
           Inl e \<Rightarrow> (Inl e, w)
         | Inr r1 \<Rightarrow>
             (case obj_body obj of
                None \<Rightarrow> (Inl ClientError, w\<lparr>staging := r1\<rparr>)
              | Some data \<Rightarrow>
                  (case write_file potential_date_str filename data r1 of
                     Inl e \<Rightarrow> (Inl e, w\<lparr>staging := r1\<rparr>)
                   | Inr r2 \<Rightarrow>
                       (Inr (), print_line (''Downloaded file: '' @ filename @ '' to '' @ destination)
                                  (w\<lparr>staging := r2\<rparr>)))))"

text \<open>
  The last lines of the loop body of download_blob_folder: the local file is opened for
  writing first (so it exists, empty, when the download fails), then the blob is read and
  written.
\<close>

definition blob_store :: "string \<Rightarrow> string \<Rightarrow> string \<Rightarrow> remote_object \<Rightarrow> world \<Rightarrow> (exn + unit) \<times> world" where
  "blob_store local_dir potential_date_str filename obj w =
     (let destination = path_join local_dir potential_date_str
      in case mkdir_parents potential_date_str (staging w) of
           Inl e \<Rightarrow> (Inl e, w)
         | Inr r1 \<Rightarrow>
             (case write_file potential_date_str filename [] r1 of
                Inl e \<Rightarrow> (Inl e, w\<lparr>staging := r1\<rparr>)
              | Inr r2 \<Rightarrow>
                  (case obj_body obj of
                     None \<Rightarrow> (Inl ClientError, w\<lparr>staging := r2\<rparr>)
                   | Some data \<Rightarrow>
                       (case write_file potential_date_str filename data r2 of
                          Inl e \<Rightarrow> (Inl e, w\<lparr>staging := r2\<rparr>)
                        | Inr r3 \<Rightarrow>
                            (Inr (), print_line (''Downloaded file: '' @ filename @ '' to '' @ destination)
                                       (w\<lparr>staging := r3\<rparr>))))))"

text \<open>
  The loop body, the same in both functions up to the store: \<open>continue\<close> leaves the world as
  it is. \<open>store\<close> is \<open>s3_store\<close> or \<open>blob_store\<close>.
\<close>

definition download_step ::
  "(string \<Rightarrow> string \<Rightarrow> string \<Rightarrow> remote_object \<Rightarrow> world \<Rightarrow> (exn + unit) \<times> world) \<Rightarrow>
   date \<Rightarrow> int \<Rightarrow> string \<Rightarrow> remote_object \<Rightarrow> world \<Rightarrow> (exn + unit) \<times> world" where
  "download_step store today days_ago local_dir obj w =
     (if \<not> py_in ''ranger/audit'' (obj_key obj) then (Inr (), w)
      else case py_getitem (split_chr CHR ''/'' (obj_key obj)) (- 2) of
        Inl e \<Rightarrow> (Inl e, w)
      | Inr potential_date_str \<Rightarrow>
          if \<not> is_date_str potential_date_str then (Inr (), w)
          else (case is_later_date today potential_date_str days_ago of
            Inl e \<Rightarrow> (Inl e, w)
          | Inr later \<Rightarrow>
              if \<not> later then (Inr (), w)
              else (case py_getitem (split_chr CHR ''/'' (obj_key obj)) (- 1) of
                Inl e \<Rightarrow> (Inl e, w)
              | Inr filename \<Rightarrow>
                  if filename = [] then (Inr (), w)
                  else store local_dir potential_date_str filename obj w)))"

text \<open>
  \<open>bucket_objects\<close> gives the objects of a bucket, \<open>container_blobs\<close> the blobs of a
  container of an account; S3 lists the keys that start with the prefix, Azure lists all.
\<close>

definition s3_listing :: "(string \<Rightarrow> remote_object list) \<Rightarrow> string \<Rightarrow> remote_object list" where
  "s3_listing bucket_objects s3_location =
     (let s3_location_list = split_chr CHR ''/'' s3_location;
          s3_bucket = hd s3_location_list;
          s3_path = join_chr CHR ''/'' (tl s3_location_list)
      in filter (\<lambda>obj. prefix s3_path (obj_key obj)) (bucket_objects s3_bucket))"

definition download_s3_folder ::
  "date \<Rightarrow> (string \<Rightarrow> remote_object list) \<Rightarrow> string \<Rightarrow> int \<Rightarrow> string \<Rightarrow> world \<Rightarrow> (exn + unit) \<times> world" where
  "download_s3_folder today bucket_objects s3_location days_ago local_dir w =
     for_each (download_step s3_store today days_ago local_dir)
       (s3_listing bucket_objects s3_location) w"

text \<open>A location without \<open>@\<close> has no second part: \<open>blob_location_list[1]\<close> raises.\<close>

definition blob_listing ::
  "(string \<Rightarrow> string \<Rightarrow> remote_object list) \<Rightarrow> string \<Rightarrow> exn + remote_object list" where
  "blob_listing container_blobs blob_location =
     (let blob_location_list = split_max1 CHR ''@'' blob_location;
          container = hd blob_location_list
      in case py_getitem blob_location_list 1 of
           Inl e \<Rightarrow> Inl e
         | Inr host \<Rightarrow>
             (let account = hd (split_chr CHR ''.'' host);
                  account_url = ''https://'' @ account @ ''.blob.core.windows.net''
              in Inr (container_blobs account_url container)))"

definition download_blob_folder ::
  "date \<Rightarrow> (string \<Rightarrow> string \<Rightarrow> remote_object list) \<Rightarrow> string \<Rightarrow> int \<Rightarrow> string \<Rightarrow> world \<Rightarrow> (exn + unit) \<times> world" where
  "download_blob_folder today container_blobs blob_location days_ago local_dir w =
     (case blob_listing container_blobs blob_location of
        Inl e \<Rightarrow> (Inl e, w)
      | Inr blob_list \<Rightarrow>
          for_each (download_step blob_store today days_ago local_dir) blob_list w)"

subsection \<open>Loading: read_file_as_json_list, send_solr_update_request, upload_to_solr\<close>

text \<open>
  \<open>f.read()\<close> on a file opened in text mode: universal newlines turn \<open>\r\n\<close> and a lone
  \<open>\r\<close> into \<open>\n\<close>. The bytes of a staged file are taken as the code points of its text.
\<close>

fun f_read :: "string \<Rightarrow> string" where
  "f_read [] = []"
| "f_read [c] = (if c = CHR 0x0D then [CHR 0x0A] else [c])"
| "f_read (c # d # cs) =
     (if c = CHR 0x0D \<and> d = CHR 0x0A then CHR 0x0A # f_read cs
      else if c = CHR 0x0D then CHR 0x0A # f_read (d # cs)
      else c # f_read (d # cs))"

definition read_file_as_json_list :: "string \<Rightarrow> exn + json list" where
  "read_file_as_json_list content =
     (let file_text = f_read content;
          file_text = rstrip_nl file_text;
          json_str_list = split_chr CHR 0x0A file_text
      in map_exn json_loads json_str_list)"

text \<open>
  The Solr endpoint: \<open>solr url body\<close> is the status code of the response to a post of
  \<open>body\<close> to \<open>url\<close>, \<open>None\<close> when no response arrives. Every post that is sent is
  recorded in \<open>posts\<close>.
\<close>

definition send_solr_update_request ::
  "(string \<Rightarrow> json list \<Rightarrow> nat option) \<Rightarrow> string \<Rightarrow> json list \<Rightarrow> world \<Rightarrow> (exn + nat) \<times> world" where
  "send_solr_update_request solr solr_path json_list w =
     (let url = ''https://'' @ solr_path @ ''/solr/ranger_audits/update'';
          w' = w\<lparr>posts := posts w @ [(url, json_list)]\<rparr>
      in case solr url json_list of
           None \<Rightarrow> (Inl ConnectionError, w')
         | Some status \<Rightarrow> (Inr status, w'))"

definition raise_for_status :: "nat \<Rightarrow> exn + unit" where
  "raise_for_status status = (if 400 \<le> status \<and> status < 600 then Inl HTTPError else Inr ())"

text \<open>The body of the inner loop of upload_to_solr, for one entry of a partition directory.\<close>

definition upload_file ::
  "(string \<Rightarrow> json list \<Rightarrow> nat option) \<Rightarrow> string \<Rightarrow> string \<times> leaf \<Rightarrow> world \<Rightarrow> (exn + unit) \<times> world" where
  "upload_file solr solr_path dir_entry w =
     (case snd dir_entry of
        LDir \<Rightarrow> (Inr (), w)
      | LFile content \<Rightarrow>
          (case read_file_as_json_list content of
             Inl e \<Rightarrow> (Inl e, w)
           | Inr json_list \<Rightarrow>
               (case send_solr_update_request solr solr_path json_list w of
                  (Inl e, w') \<Rightarrow> (Inl e, w')
                | (Inr response, w') \<Rightarrow>
                    (case raise_for_status response of
                       Inl e \<Rightarrow> (Inl e, w')
                     | Inr _ \<Rightarrow>
                         (Inr (), print_line (''Inserted '' @ fst dir_entry @ '' into Solr.'') w')))))"

text \<open>The body of the outer loop, for one entry of the staging root.\<close>

definition upload_dir ::
  "(string \<Rightarrow> json list \<Rightarrow> nat option) \<Rightarrow> string \<Rightarrow> string \<times> entry \<Rightarrow> world \<Rightarrow> (exn + unit) \<times> world" where
  "upload_dir solr solr_path dir w =
     (case snd dir of
        EFile _ \<Rightarrow> (Inr (), w)
      | EDir files \<Rightarrow> for_each (upload_file solr solr_path) files w)"

definition upload_to_solr ::
  "(string \<Rightarrow> json list \<Rightarrow> nat option) \<Rightarrow> string \<Rightarrow> string \<Rightarrow> world \<Rightarrow> (exn + unit) \<times> world" where
  "upload_to_solr solr local_dir solr_path w =
     (case staging w of
        Absent \<Rightarrow> (Inr (), w)
      | RFile \<Rightarrow> (Inl OSError, w)
      | RDir dirs \<Rightarrow> for_each (upload_dir solr solr_path) dirs w)"

subsection \<open>Cleaning up: remove_dir\<close>

text \<open>
  The loops of remove_dir act on the directory listing itself: the entry visited is removed
  and the rest is visited next. \<open>os.remove\<close> deletes a file and fails on a directory;
  \<open>os.rmdir\<close> deletes the partition directory once its files are gone. On a failure the
  entries not yet removed stay. The staging root itself is never removed.
\<close>

fun remove_files :: "(string \<times> leaf) list \<Rightarrow> (exn + unit) \<times> (string \<times> leaf) list" where
  "remove_files [] = (Inr (), [])"
| "remove_files ((filename, LFile content) # fs) = remove_files fs"
| "remove_files ((filename, LDir) # fs) = (Inl OSError, (filename, LDir) # fs)"

fun remove_entries :: "(string \<times> entry) list \<Rightarrow> (exn + unit) \<times> (string \<times> entry) list" where
  "remove_entries [] = (Inr (), [])"
| "remove_entries ((dir, EFile content) # es) = remove_entries es"
| "remove_entries ((dir, EDir fs) # es) =
     (case remove_files fs of
        (Inl e, fs') \<Rightarrow> (Inl e, (dir, EDir fs') # es)
      | (Inr _, fs') \<Rightarrow> remove_entries es)"

definition remove_dir :: "string \<Rightarrow> world \<Rightarrow> (exn + unit) \<times> world" where
  "remove_dir local_dir w =
     (case staging w of
        Absent \<Rightarrow> (Inr (), w)
      | RFile \<Rightarrow> (Inl OSError, w)
      | RDir es \<Rightarrow>
          (case remove_entries es of
             (Inl e, es') \<Rightarrow> (Inl e, w\<lparr>staging := RDir es'\<rparr>)
           | (Inr _, es') \<Rightarrow> (Inr (), print_line ''Removed /tmp_logs.'' (w\<lparr>staging := RDir es'\<rparr>))))"

subsection \<open>The orchestrator: main\<close>

text \<open>
  What get_user_inputs returns, and what surrounds a run: the date of the clock, the two
  cloud stores and the Solr endpoint. The Kerberos login at the start of main precedes the
  \<open>try\<close> statement and does not touch the staging directory (its \<open>stderr\<close> is merged into
  \<open>stdout\<close>, so the test on it never raises); main is modelled from the \<open>try\<close> on.
  \<open>parsed\<close> is the outcome of argparse: the inputs, or SystemExit for a bad command line.
\<close>

record user_inputs =
  cloud_type :: string
  storage_location :: string
  solr_path :: string
  days_ago :: int
  access_key_id :: string
  secret_access_key :: "string option"

record env =
  env_today :: date
  env_bucket_objects :: "string \<Rightarrow> remote_object list"
  env_container_blobs :: "string \<Rightarrow> string \<Rightarrow> remote_object list"
  env_solr :: "string \<Rightarrow> json list \<Rightarrow> nat option"

definition LOCAL_DIR :: string where
  "LOCAL_DIR = ''tmp_logs''"

text \<open>The fetch stage: the branch on the cloud type.\<close>

definition fetch_stage :: "env \<Rightarrow> user_inputs \<Rightarrow> world \<Rightarrow> (exn + unit) \<times> world" where
  "fetch_stage ev ui w =
     (if lower (cloud_type ui) = ''aws'' then
        download_s3_folder (env_today ev) (env_bucket_objects ev) (storage_location ui)
          (days_ago ui) LOCAL_DIR w
      else if lower (cloud_type ui) = ''azure'' then
        download_blob_folder (env_today ev) (env_container_blobs ev) (storage_location ui)
          (days_ago ui) LOCAL_DIR w
      else (Inl ValueError, w))"

text \<open>The body of the \<open>try\<close> statement.\<close>

definition try_body :: "env \<Rightarrow> exn + user_inputs \<Rightarrow> world \<Rightarrow> (exn + unit) \<times> world" where
  "try_body ev parsed w =
     (case parsed of
        Inl e \<Rightarrow> (Inl e, w)
      | Inr ui \<Rightarrow>
          (case fetch_stage ev ui w of
             (Inl e, w1) \<Rightarrow> (Inl e, w1)
           | (Inr _, w1) \<Rightarrow> upload_to_solr (env_solr ev) LOCAL_DIR (solr_path ui) w1))"

text \<open>
  \<open>try ... except Exception as ex: print(ex) ... finally: remove_dir(LOCAL_DIR)\<close>: an
  exception that is not an \<open>Exception\<close> stays pending over the \<open>finally\<close> clause, and an
  exception of the \<open>finally\<close> clause replaces it.
\<close>

definition main :: "env \<Rightarrow> exn + user_inputs \<Rightarrow> world \<Rightarrow> (exn + unit) \<times> world" where
  "main ev parsed w =
     (let (r, w1) = try_body ev parsed w;
          (pending, w2) =
             (case r of
                Inr _ \<Rightarrow> (None, w1)
              | Inl ex \<Rightarrow> if is_Exception ex then (None, print_exn ex w1) else (Some ex, w1));
          (c, w3) = remove_dir LOCAL_DIR w2
      in case c of
           Inl ce \<Rightarrow> (Inl ce, w3)
         | Inr _ \<Rightarrow> (case pending of Some ex \<Rightarrow> (Inl ex, w3) | None \<Rightarrow> (Inr (), w3)))"

section \<open>The specification's reading of the claims\<close>

text \<open>
  A partition label is an 8-digit string \<open>YYYYMMDD\<close> that names a calendar date; it is in
  the window of \<open>n\<close> days when its date is not before \<open>today - n\<close>.
\<close>

definition valid_ymd :: "int \<Rightarrow> int \<Rightarrow> int \<Rightarrow> bool" where
  "valid_ymd y m d = (1 \<le> y \<and> 1 \<le> m \<and> m \<le> 12 \<and> 1 \<le> d \<and> d \<le> days_in_month y m)"

definition spec_isDateLabel :: "string \<Rightarrow> bool" where
  "spec_isDateLabel s =
     (length s = 8 \<and> list_all is_digit s \<and>
      valid_ymd (digits_val (take 4 s)) (digits_val (take 2 (drop 4 s))) (digits_val (drop 6 s)))"

definition spec_date :: "string \<Rightarrow> date" where
  "spec_date s =
     ymd2ord (digits_val (take 4 s)) (digits_val (take 2 (drop 4 s))) (digits_val (drop 6 s))"

definition spec_isInWindow :: "date \<Rightarrow> string \<Rightarrow> int \<Rightarrow> bool" where
  "spec_isInWindow today s n = (spec_isDateLabel s \<and> spec_date s \<ge> today - n)"

text \<open>
  The three structural checks of the selector: the marker, the partition label (the
  second-to-last segment of the path) and the filename (the last segment).
\<close>

definition partition_label :: "string \<Rightarrow> string" where
  "partition_label path = (let segs = split_chr CHR ''/'' path in segs ! (length segs - 2))"

definition file_name :: "string \<Rightarrow> string" where
  "file_name path = last (split_chr CHR ''/'' path)"

definition eight_digits :: "string \<Rightarrow> bool" where
  "eight_digits s = (length s = 8 \<and> list_all is_digit s)"

definition spec_accepts :: "date \<Rightarrow> int \<Rightarrow> string \<Rightarrow> bool" where
  "spec_accepts today n path =
     (py_in ''ranger/audit'' path \<and> spec_isInWindow today (partition_label path) n
      \<and> file_name path \<noteq> [])"



section \<open>Example inputs\<close>

text \<open>
  A listing with one object of each kind the selector tells apart: in the window, too old,
  outside the audit namespace, a folder marker, and a folder that is not a date.
\<close>

definition remote :: "string \<Rightarrow> string \<Rightarrow> remote_object" where
  "remote k d = \<lparr>obj_key = k, obj_body = Some d\<rparr>"

definition example_listing :: "remote_object list" where
  "example_listing =
     [remote ''p/ranger/audit/20230108/a'' ''1'',
      remote ''p/ranger/audit/20230107/b'' ''y'',
      remote ''p/ranger/20230108/c'' ''z'',
      remote ''p/ranger/audit/20230109/'' [],
      remote ''p/ranger/audit/tests/t'' ''u'']"

text \<open>The world after the example listing is fetched on 2023-01-10 with a window of 2 days.\<close>

definition example_staged :: world where
  "example_staged =
     \<lparr>staging = RDir [(''20230108'', EDir [(''a'', LFile ''1'')])],
      stdout = [Line ''Downloaded file: a to tmp_logs/20230108''],
      posts = []\<rparr>"

text \<open>
  A run on 2023-01-10 over the example listing in S3, with a window of 2 days, against a
  Solr that answers every post with the given status.
\<close>

definition example_env :: "nat \<Rightarrow> env" where
  "example_env status =
     \<lparr>env_today = 738530,
      env_bucket_objects = (\<lambda>bucket. example_listing),
      env_container_blobs = (\<lambda>account_url container. []),
      env_solr = (\<lambda>url body. Some status)\<rparr>"

definition example_inputs :: "string \<Rightarrow> user_inputs" where
  "example_inputs ct =
     \<lparr>cloud_type = ct, storage_location = ''b/p'', solr_path = ''h:8985'', days_ago = 2,
      access_key_id = ''k'', secret_access_key = None\<rparr>"

section \<open>Properties\<close>

subsection \<open>Dates and labels\<close>

lemma digit_val_range: "is_digit c \<Longrightarrow> 0 \<le> digit_val c \<and> digit_val c \<le> 9"
  by (auto simp: is_digit_def digit_val_def)

lemma digit_eq_iff: "is_digit c \<Longrightarrow> is_digit k \<Longrightarrow> (c = k) = (digit_val c = digit_val k)"
  by (auto simp: is_digit_def digit_val_def)

lemma in_range_digit:
  "is_digit c \<Longrightarrow> is_digit lo \<Longrightarrow> is_digit hi \<Longrightarrow>
   in_range lo hi c = (digit_val lo \<le> digit_val c \<and> digit_val c \<le> digit_val hi)"
  by (auto simp: is_digit_def digit_val_def in_range_def)

lemma days_in_month_le: "1 \<le> m \<Longrightarrow> m \<le> 12 \<Longrightarrow> 28 \<le> days_in_month y m \<and> days_in_month y m \<le> 31"
proof -
  assume "1 \<le> m" "m \<le> 12"
  then have "m = 1 \<or> m = 2 \<or> m = 3 \<or> m = 4 \<or> m = 5 \<or> m = 6 \<or> m = 7 \<or> m = 8 \<or> m = 9
     \<or> m = 10 \<or> m = 11 \<or> m = 12" by arith
  then show ?thesis by (auto simp: days_in_month_def)
qed

lemma len8: "length s = 8 \<Longrightarrow> \<exists>a b c d e f g h. s = [a,b,c,d,e,f,g,h]"
  by (auto simp: length_Suc_conv eval_nat_numeral)

lemma match_m_digits:
  assumes "is_digit e" "is_digit f"
  shows "match_m (e # f # r) =
     (if 1 \<le> 10 * digit_val e + digit_val f \<and> 10 * digit_val e + digit_val f \<le> 12
      then [(10 * digit_val e + digit_val f, r)] else [])
     @ (if 1 \<le> digit_val e then [(digit_val e, f # r)] else [])"
proof -
  have z: "is_digit CHR ''0''" "is_digit CHR ''1''" "is_digit CHR ''2''" "is_digit CHR ''9''"
    by (simp_all add: is_digit_def)
  have v: "digit_val CHR ''0'' = 0" "digit_val CHR ''1'' = 1" "digit_val CHR ''2'' = 2" "digit_val CHR ''9'' = 9"
    by (simp_all add: digit_val_def)
  note r = digit_val_range[OF assms(1)] digit_val_range[OF assms(2)]
  show ?thesis
    using r
    by (auto simp: match_m_def two_chars_def one_char_def assms in_range_digit z v
          digit_eq_iff[OF assms(1) z(2)] digit_eq_iff[OF assms(1) z(1)])
qed

lemma match_d_digits:
  assumes "is_digit g" "is_digit h"
  shows "match_d [g, h] =
     (if 1 \<le> 10 * digit_val g + digit_val h \<and> 10 * digit_val g + digit_val h \<le> 31
      then [(10 * digit_val g + digit_val h, [])] else [])
     @ (if 1 \<le> digit_val g then [(digit_val g, [h])] else [])"
proof -
  have z: "is_digit CHR ''0''" "is_digit CHR ''1''" "is_digit CHR ''2''" "is_digit CHR ''9''" "is_digit CHR ''3''"
    by (simp_all add: is_digit_def)
  have v: "digit_val CHR ''0'' = 0" "digit_val CHR ''1'' = 1" "digit_val CHR ''2'' = 2" "digit_val CHR ''9'' = 9"
     "digit_val CHR ''3'' = 3"
    by (simp_all add: digit_val_def)
  have sp: "g \<noteq> CHR '' ''" using assms(1) by (auto simp: is_digit_def)
  note r = digit_val_range[OF assms(1)] digit_val_range[OF assms(2)]
  show ?thesis
    using r sp
    by (auto simp: match_d_def two_chars_def one_char_def assms in_range_digit z v
          digit_eq_iff[OF assms(1) z(5)] digit_eq_iff[OF assms(1) z(1)])
qed


lemma match_d_rest: "(v, r) \<in> set (match_d s) \<Longrightarrow> length s \<le> length r + 2"
  by (auto simp: match_d_def two_chars_def one_char_def split: list.splits if_splits)

lemma first_unconverted:
  assumes "\<forall>x \<in> set xs. snd (snd (snd x)) \<noteq> []"
  shows "(case xs of [] \<Rightarrow> Inl ValueError
          | (y, m, d, rest) # _ \<Rightarrow> if rest \<noteq> [] then Inl ValueError else py_date y m d)
         = Inl ValueError"
  using assms by (cases xs) (auto split: prod.splits)

lemma match_Y_digits:
  assumes "is_digit a" "is_digit b" "is_digit c" "is_digit d"
  shows "match_Y (a # b # c # d # r) = [(digits_val [a, b, c, d], r)]"
  using assms by (simp add: match_Y_def digits_val_def)

lemma digits_val4_range:
  assumes "is_digit a" "is_digit b" "is_digit c" "is_digit d"
  shows "0 \<le> digits_val [a, b, c, d] \<and> digits_val [a, b, c, d] \<le> 9999"
  using digit_val_range[OF assms(1)] digit_val_range[OF assms(2)]
        digit_val_range[OF assms(3)] digit_val_range[OF assms(4)]
  by (simp add: digits_val_def)

lemma strptime_Ymd_digits8:
  assumes dg: "is_digit a" "is_digit b" "is_digit c" "is_digit d"
              "is_digit e" "is_digit f" "is_digit g" "is_digit h"
  shows "strptime_Ymd [a, b, c, d, e, f, g, h] =
     (if valid_ymd (digits_val [a, b, c, d]) (digits_val [e, f]) (digits_val [g, h])
      then Inr (ymd2ord (digits_val [a, b, c, d]) (digits_val [e, f]) (digits_val [g, h]))
      else Inl ValueError)"
proof -
  let ?y = "digits_val [a, b, c, d]"
  let ?m = "10 * digit_val e + digit_val f"
  let ?d = "10 * digit_val g + digit_val h"
  have mv: "digits_val [e, f] = ?m" and dv: "digits_val [g, h] = ?d"
    by (simp_all add: digits_val_def)
  note yr = digits_val4_range[OF dg(1-4)]
  note re = digit_val_range[OF dg(5)] and rf = digit_val_range[OF dg(6)]
  note rg = digit_val_range[OF dg(7)] and rh = digit_val_range[OF dg(8)]
  have long: "\<forall>x \<in> set (map (\<lambda>(d, r3). (?y, digit_val e, d, r3)) (match_d [f, g, h])).
                 snd (snd (snd x)) \<noteq> []"
    using match_d_rest[of _ _ "[f, g, h]"] by fastforce
  have R: "regex_Ymd [a, b, c, d, e, f, g, h] =
      (if 1 \<le> ?m \<and> ?m \<le> 12 then map (\<lambda>(d, r3). (?y, ?m, d, r3)) (match_d [g, h]) else [])
      @ (if 1 \<le> digit_val e then map (\<lambda>(d, r3). (?y, digit_val e, d, r3)) (match_d [f, g, h]) else [])"
    by (auto simp: regex_Ymd_def match_Y_digits[OF dg(1-4)] match_m_digits[OF dg(5,6)])
  show ?thesis
  proof (cases "1 \<le> ?m \<and> ?m \<le> 12")
    case mok: True
    note dim = days_in_month_le[of ?m ?y]
    show ?thesis
    proof (cases "1 \<le> ?d \<and> ?d \<le> 31")
      case True
      then have "regex_Ymd [a, b, c, d, e, f, g, h] =
          (?y, ?m, ?d, []) # (if 1 \<le> digit_val g then [(?y, ?m, digit_val g, [h])] else [])
          @ (if 1 \<le> digit_val e then map (\<lambda>(d, r3). (?y, digit_val e, d, r3)) (match_d [f, g, h]) else [])"
        using mok by (simp add: R match_d_digits[OF dg(7,8)])
      then show ?thesis
        using mok True yr
        by (simp add: strptime_Ymd_def py_date_def valid_ymd_def mv dv MINYEAR_def MAXYEAR_def)
    next
      case False
      have nv: "\<not> valid_ymd ?y ?m ?d"
        using False dim mok by (auto simp: valid_ymd_def)
      have "\<forall>x \<in> set (regex_Ymd [a, b, c, d, e, f, g, h]). snd (snd (snd x)) \<noteq> []"
        using False mok long by (auto simp: R match_d_digits[OF dg(7,8)])
      from first_unconverted[OF this] show ?thesis
        using nv by (simp add: strptime_Ymd_def mv dv)
    qed
  next
    case False
    have nv: "\<not> valid_ymd ?y ?m ?d"
      using False by (auto simp: valid_ymd_def)
    have "\<forall>x \<in> set (regex_Ymd [a, b, c, d, e, f, g, h]). snd (snd (snd x)) \<noteq> []"
      using False long by (auto simp: R)
    from first_unconverted[OF this] show ?thesis
      using nv by (simp add: strptime_Ymd_def mv dv)
  qed
qed

lemma strptime_Ymd_len8:
  assumes "length s = 8" "list_all is_digit s"
  shows "strptime_Ymd s = (if spec_isDateLabel s then Inr (spec_date s) else Inl ValueError)"
proof -
  from len8[OF assms(1)] obtain a b c d e f g h where s: "s = [a, b, c, d, e, f, g, h]" by blast
  with assms(2) have dg: "is_digit a" "is_digit b" "is_digit c" "is_digit d"
              "is_digit e" "is_digit f" "is_digit g" "is_digit h" by simp_all
  show ?thesis
    unfolding s strptime_Ymd_digits8[OF dg]
    using dg by (simp add: spec_isDateLabel_def spec_date_def)
qed

lemma is_date_str_len8:
  "length s = 8 \<Longrightarrow> list_all is_digit s \<Longrightarrow> is_date_str s = spec_isDateLabel s"
  by (simp add: is_date_str_def strptime_Ymd_len8)

lemma spec_label_strptime: "spec_isDateLabel s \<Longrightarrow> strptime_Ymd s = Inr (spec_date s)"
  using strptime_Ymd_len8[of s] by (simp add: spec_isDateLabel_def)

lemma sub_days_ok:
  "1 \<le> today \<Longrightarrow> today \<le> MAXORDINAL \<Longrightarrow> 0 \<le> n \<Longrightarrow> n < today \<Longrightarrow> sub_days today n = Inr (today - n)"
  by (auto simp: sub_days_def MAXORDINAL_def)

lemma is_later_date_label:
  assumes "spec_isDateLabel d" "sub_days today n = Inr t"
  shows "is_later_date today d n = Inr (spec_date d \<ge> t)"
  using assms spec_label_strptime[OF assms(1)]
  by (simp add: is_later_date_def is_date_str_def get_days_ago_date_def)

lemma is_later_date_not_date: "\<not> is_date_str s \<Longrightarrow> is_later_date today s n = Inr False"
  by (simp add: is_later_date_def)

lemma is_later_date_overflow:
  assumes "is_date_str s" "sub_days today n = Inl e"
  shows "is_later_date today s n = Inl e"
  using assms by (auto simp: is_later_date_def is_date_str_def get_days_ago_date_def split: sum.splits)

lemma sub_days_exn: "sub_days today n = Inl e \<Longrightarrow> e = OverflowError"
  by (auto simp: sub_days_def split: if_splits)

lemma is_later_date_exn: "is_later_date today s n = Inl e \<Longrightarrow> e = OverflowError"
  by (auto simp: is_later_date_def is_date_str_def get_days_ago_date_def
           split: sum.splits if_splits dest: sub_days_exn)

lemma label_20230108: "spec_isDateLabel ''20230108'' \<and> spec_date ''20230108'' = 738528"
  by (simp add: spec_isDateLabel_def spec_date_def is_digit_def digits_val_def digit_val_def valid_ymd_def
        days_in_month_def is_leap_def ymd2ord_def days_before_year_def days_before_month_def)

lemma label_20230107: "spec_isDateLabel ''20230107'' \<and> spec_date ''20230107'' = 738527"
  by (simp add: spec_isDateLabel_def spec_date_def is_digit_def digits_val_def digit_val_def valid_ymd_def
        days_in_month_def is_leap_def ymd2ord_def days_before_year_def days_before_month_def)

lemma today_20230110: "ymd2ord 2023 1 10 = 738530"
  by (simp add: ymd2ord_def days_before_year_def days_before_month_def)

lemma strptime_2023011: "strptime_Ymd ''2023011'' = Inr (ymd2ord 2023 1 1)"
  by (simp add: strptime_Ymd_def regex_Ymd_def match_Y_def match_m_def match_d_def two_chars_def
        one_char_def is_digit_def digit_val_def in_range_def py_date_def MINYEAR_def MAXYEAR_def
        days_in_month_def is_leap_def)

subsection \<open>Date labels (C3)\<close>

text \<open>
  C3. is_date_str is meant to accept exactly the strings of eight digits \<open>YYYYMMDD\<close> that
  name a calendar date, and on strings of eight digits it does (\<open>is_date_str_len8\<close>). But
  strptime also matches a month or a day of one digit: the seven characters \<open>2023011\<close> are
  read as 2023-01-01 and is_date_str returns True, where the claim says False.
\<close>

theorem is_date_str_seven_digits:
  "is_date_str ''2023011'' \<and> strptime_Ymd ''2023011'' = Inr (ymd2ord 2023 1 1)
   \<and> \<not> spec_isDateLabel ''2023011''"
  by (simp add: is_date_str_def strptime_2023011 spec_isDateLabel_def)

subsection \<open>The window (C6)\<close>

text \<open>
  C6, as the code has it. When the start of the window is a date that exists (\<open>today\<close> is
  a date and \<open>0 \<le> n < today\<close> as ordinals), is_later_date returns, for a valid date label,
  whether its date is on or after \<open>today - n\<close> days; for a string that is_date_str rejects
  it returns False.
\<close>

theorem is_later_date_window:
  assumes "1 \<le> today" "today \<le> MAXORDINAL" "0 \<le> n" "n < today"
  shows "(spec_isDateLabel d \<longrightarrow> is_later_date today d n = Inr (spec_date d \<ge> today - n))
       \<and> (\<not> is_date_str s \<longrightarrow> is_later_date today s n = Inr False)"
  using is_later_date_label[OF _ sub_days_ok[OF assms]] is_later_date_not_date by blast

theorem is_later_date_window_witness:
  "is_later_date (ymd2ord 2023 1 10) ''20230108'' 2 = Inr True
   \<and> is_later_date (ymd2ord 2023 1 10) ''20230107'' 2 = Inr False
   \<and> is_later_date (ymd2ord 2023 1 10) ''tests'' 2 = Inr False"
proof -
  have nd: "\<not> is_date_str ''tests''"
    by (simp add: is_date_str_def strptime_Ymd_def regex_Ymd_def match_Y_def is_digit_def)
  have h: "1 \<le> (738530::int)" "738530 \<le> MAXORDINAL" "0 \<le> (2::int)" "(2::int) < 738530"
    by (simp_all add: MAXORDINAL_def)
  show ?thesis
    using is_later_date_window[OF h, of "''20230108''" "''tests''"]
          is_later_date_window[OF h, of "''20230107''" "''tests''"] nd
          label_20230108 label_20230107
    by (simp add: today_20230110)
qed

text \<open>
  C6 as stated fails for a large window: a million days before 2023-01-10 is before
  0001-01-01, and the subtraction raises OverflowError although the label is in the window.
\<close>

theorem is_later_date_large_window:
  "spec_isDateLabel ''20230108'' \<and> (0::int) \<le> 1000000
   \<and> spec_date ''20230108'' \<ge> ymd2ord 2023 1 10 - 1000000
   \<and> is_later_date (ymd2ord 2023 1 10) ''20230108'' 1000000 = Inl OverflowError"
proof -
  have "sub_days 738530 1000000 = Inl OverflowError"
    by (simp add: sub_days_def)
  moreover have "is_date_str ''20230108''"
    using label_20230108 spec_label_strptime by (simp add: is_date_str_def)
  ultimately show ?thesis
    using is_later_date_overflow[of "''20230108''" 738530 1000000 OverflowError] label_20230108
    by (simp add: today_20230110)
qed

lemma py_in_set: "py_in sub s \<Longrightarrow> set sub \<subseteq> set s"
proof (induction s)
  case Nil
  then show ?case by simp
next
  case (Cons c cs)
  from Cons.prems have "prefix sub (c # cs) \<or> py_in sub cs" by simp
  then show ?case
  proof
    assume "prefix sub (c # cs)"
    then show ?thesis by (rule set_mono_prefix)
  next
    assume "py_in sub cs"
    with Cons.IH show ?thesis by auto
  qed
qed

lemma split_chr_nonempty: "split_chr sep s \<noteq> []"
  by (induction s) (auto split: list.splits)

lemma length_split_chr: "length (split_chr sep s) = Suc (length (filter (\<lambda>c. c = sep) s))"
  by (induction s) (auto split: list.splits)

lemma split_chr_two: "sep \<in> set s \<Longrightarrow> 2 \<le> length (split_chr sep s)"
proof -
  assume "sep \<in> set s"
  then have "filter (\<lambda>c. c = sep) s \<noteq> []" by (auto simp: filter_empty_conv)
  then have "0 < length (filter (\<lambda>c. c = sep) s)" by (simp del: filter_empty_conv)
  then show ?thesis unfolding length_split_chr by arith
qed

lemma py_getitem_m2: "2 \<le> length xs \<Longrightarrow> py_getitem xs (- 2) = Inr (xs ! (length xs - 2))"
  by (auto simp: py_getitem_def nat_diff_distrib' intro!: arg_cong[of _ _ "nth xs"])

lemma py_getitem_m1: "xs \<noteq> [] \<Longrightarrow> py_getitem xs (- 1) = Inr (last xs)"
proof -
  assume ne: "xs \<noteq> []"
  then have l: "0 < length xs" by simp
  have "nat (int (length xs) + - 1) = length xs - 1" using l by arith
  moreover have "- int (length xs) \<le> - 1" using l by arith
  moreover have "\<not> (0 \<le> (- 1 :: int))" by simp
  ultimately show ?thesis using ne unfolding py_getitem_def by (simp add: last_conv_nth)
qed

lemma marker_segments:
  assumes "py_in ''ranger/audit'' path"
  shows "2 \<le> length (split_chr CHR ''/'' path)"
proof -
  from py_in_set[OF assms] have "CHR ''/'' \<in> set path" by auto
  then show ?thesis by (rule split_chr_two)
qed

lemma marker_label:
  "py_in ''ranger/audit'' path \<Longrightarrow> py_getitem (split_chr CHR ''/'' path) (- 2) = Inr (partition_label path)"
  using py_getitem_m2[OF marker_segments] by (simp add: partition_label_def Let_def)

lemma split_file_name: "py_getitem (split_chr CHR ''/'' path) (- 1) = Inr (file_name path)"
  using py_getitem_m1[OF split_chr_nonempty] by (simp add: file_name_def)

lemma download_step_no_marker:
  "\<not> py_in ''ranger/audit'' (obj_key obj) \<Longrightarrow> download_step store today n ld obj w = (Inr (), w)"
  by (simp add: download_step_def)

lemma download_step_marker:
  assumes "py_in ''ranger/audit'' (obj_key obj)"
  shows "download_step store today n ld obj w =
     (if \<not> is_date_str (partition_label (obj_key obj)) then (Inr (), w)
      else case is_later_date today (partition_label (obj_key obj)) n of
             Inl e \<Rightarrow> (Inl e, w)
           | Inr later \<Rightarrow>
               if later \<and> file_name (obj_key obj) \<noteq> []
               then store ld (partition_label (obj_key obj)) (file_name (obj_key obj)) obj w
               else (Inr (), w))"
  using assms
  by (simp add: download_step_def marker_label split_file_name split: sum.splits)

lemma spec_label_is_date_str: "spec_isDateLabel s \<Longrightarrow> is_date_str s"
  by (simp add: is_date_str_def spec_label_strptime)

lemma download_step_spec:
  assumes win: "sub_days today n = Inr (today - n)"
      and lab: "\<not> py_in ''ranger/audit'' (obj_key obj)
                \<or> (length (partition_label (obj_key obj)) = 8
                    \<and> list_all is_digit (partition_label (obj_key obj)))
                \<or> \<not> is_date_str (partition_label (obj_key obj))"
  shows "download_step store today n ld obj w =
     (if spec_accepts today n (obj_key obj)
      then store ld (partition_label (obj_key obj)) (file_name (obj_key obj)) obj w
      else (Inr (), w))"
proof (cases "py_in ''ranger/audit'' (obj_key obj)")
  case False
  then show ?thesis by (simp add: download_step_no_marker spec_accepts_def)
next
  case True
  let ?l = "partition_label (obj_key obj)"
  show ?thesis
  proof (cases "spec_isDateLabel ?l")
    case sl: True
    from is_later_date_label[OF sl win] spec_label_is_date_str[OF sl] True sl
    show ?thesis
      by (simp add: download_step_marker spec_accepts_def spec_isInWindow_def)
  next
    case False
    have "\<not> is_date_str ?l"
      using lab True False is_date_str_len8[of ?l] by auto
    with True False show ?thesis
      by (simp add: download_step_marker spec_accepts_def spec_isInWindow_def)
  qed
qed

lemma for_each_never:
  assumes "\<And>x w. x \<in> set xs \<Longrightarrow> fst (body x w) \<noteq> Inl e"
  shows "fst (for_each body xs w) \<noteq> Inl e"
  using assms
proof (induction xs arbitrary: w)
  case Nil
  then show ?case by simp
next
  case (Cons x xs)
  have hd: "fst (body x w) \<noteq> Inl e" using Cons.prems by simp
  show ?case
  proof (cases "body x w")
    case (Pair r w')
    show ?thesis
    proof (cases r)
      case (Inl e')
      with Pair hd show ?thesis by auto
    next
      case (Inr u)
      with Pair Cons.IH[of w'] Cons.prems show ?thesis by simp
    qed
  qed
qed

lemma mkdir_parents_exn: "mkdir_parents l r = Inl e \<Longrightarrow> e = OSError"
  by (auto simp: mkdir_parents_def split: root.splits option.splits entry.splits)

lemma write_file_exn: "write_file l f d r = Inl e \<Longrightarrow> e = OSError"
  by (auto simp: write_file_def split: root.splits option.splits entry.splits leaf.splits if_splits)

lemma s3_store_exn: "fst (s3_store ld l f obj w) = Inl e \<Longrightarrow> e = OSError \<or> e = ClientError"
  by (auto simp: s3_store_def Let_def split: sum.splits option.splits
           dest: mkdir_parents_exn write_file_exn)

lemma blob_store_exn: "fst (blob_store ld l f obj w) = Inl e \<Longrightarrow> e = OSError \<or> e = ClientError"
  by (auto simp: blob_store_def Let_def split: sum.splits option.splits
           dest: mkdir_parents_exn write_file_exn)

lemma download_step_exn:
  assumes st: "\<And>l f w e. fst (store ld l f obj w) = Inl e \<Longrightarrow> e = OSError \<or> e = ClientError"
      and "fst (download_step store today n ld obj w) = Inl e"
  shows "e = OSError \<or> e = ClientError \<or> e = OverflowError"
proof (cases "py_in ''ranger/audit'' (obj_key obj)")
  case False
  with assms(2) show ?thesis by (simp add: download_step_no_marker)
next
  case True
  with assms(2) show ?thesis
    by (auto simp: download_step_marker split: if_splits sum.splits
             dest: is_later_date_exn st)
qed

lemma for_each_filter:
  assumes "\<And>x w. x \<in> set xs \<Longrightarrow> body x w = (if P x then body' x w else (Inr (), w))"
  shows "for_each body xs w = for_each body' (filter P xs) w"
  using assms
proof (induction xs arbitrary: w)
  case Nil
  then show ?case by simp
next
  case (Cons x xs)
  have tl: "\<And>w'. for_each body xs w' = for_each body' (filter P xs) w'"
    using Cons.IH Cons.prems by simp
  show ?case
  proof (cases "P x")
    case True
    then have "body x w = body' x w" using Cons.prems by simp
    then show ?thesis using True tl by (simp split: prod.splits sum.splits)
  next
    case False
    then have "body x w = (Inr (), w)" using Cons.prems by simp
    then show ?thesis using False tl by simp
  qed
qed

lemma download_s3_folder_spec:
  assumes win: "sub_days today n = Inr (today - n)"
      and lab: "list_all (\<lambda>obj. py_in ''ranger/audit'' (obj_key obj) \<longrightarrow>
                   eight_digits (partition_label (obj_key obj))
                   \<or> \<not> is_date_str (partition_label (obj_key obj))) listing"
  shows "for_each (download_step store today n ld) listing w =
         for_each (\<lambda>obj. store ld (partition_label (obj_key obj)) (file_name (obj_key obj)) obj)
           (filter (\<lambda>obj. spec_accepts today n (obj_key obj)) listing) w"
proof (rule for_each_filter)
  fix x w'
  assume "x \<in> set listing"
  with lab have "\<not> py_in ''ranger/audit'' (obj_key x)
      \<or> (length (partition_label (obj_key x)) = 8 \<and> list_all is_digit (partition_label (obj_key x)))
      \<or> \<not> is_date_str (partition_label (obj_key x))"
    by (auto simp: list_all_iff eight_digits_def)
  from download_step_spec[OF win this]
  show "download_step store today n ld x w' =
        (if spec_accepts today n (obj_key x)
         then store ld (partition_label (obj_key x)) (file_name (obj_key x)) x w'
         else (Inr (), w'))" .
qed

subsection \<open>Evaluation of the examples\<close>

lemma label_20230109: "spec_isDateLabel ''20230109'' \<and> spec_date ''20230109'' = 738529"
  by (simp add: spec_isDateLabel_def spec_date_def is_digit_def digits_val_def digit_val_def valid_ymd_def
        days_in_month_def is_leap_def ymd2ord_def days_before_year_def days_before_month_def)

lemma not_date_tests: "\<not> is_date_str ''tests''"
  by (simp add: is_date_str_def strptime_Ymd_def regex_Ymd_def match_Y_def is_digit_def)

lemma key_a:
  "py_in ''ranger/audit'' ''p/ranger/audit/20230108/a''"
  "partition_label ''p/ranger/audit/20230108/a'' = ''20230108''"
  "file_name ''p/ranger/audit/20230108/a'' = ''a''"
  by (simp_all add: partition_label_def file_name_def)

lemma key_b:
  "py_in ''ranger/audit'' ''p/ranger/audit/20230107/b''"
  "partition_label ''p/ranger/audit/20230107/b'' = ''20230107''"
  "file_name ''p/ranger/audit/20230107/b'' = ''b''"
  by (simp_all add: partition_label_def file_name_def)

lemma key_c: "\<not> py_in ''ranger/audit'' ''p/ranger/20230108/c''"
  by simp

lemma key_d:
  "py_in ''ranger/audit'' ''p/ranger/audit/20230109/''"
  "partition_label ''p/ranger/audit/20230109/'' = ''20230109''"
  "file_name ''p/ranger/audit/20230109/'' = []"
  by (simp_all add: partition_label_def file_name_def)

lemma key_t:
  "py_in ''ranger/audit'' ''p/ranger/audit/tests/t''"
  "partition_label ''p/ranger/audit/tests/t'' = ''tests''"
  "file_name ''p/ranger/audit/tests/t'' = ''t''"
  by (simp_all add: partition_label_def file_name_def)

lemma key_s:
  "py_in ''ranger/audit'' ''p/ranger/audit/2023011/s''"
  "partition_label ''p/ranger/audit/2023011/s'' = ''2023011''"
  "file_name ''p/ranger/audit/2023011/s'' = ''s''"
  by (simp_all add: partition_label_def file_name_def)

lemma example_listing_labels:
  "list_all (\<lambda>obj. py_in ''ranger/audit'' (obj_key obj) \<longrightarrow>
      eight_digits (partition_label (obj_key obj))
      \<or> \<not> is_date_str (partition_label (obj_key obj))) example_listing"
  by (simp add: example_listing_def remote_def key_a key_b key_c key_d key_t not_date_tests
        eight_digits_def is_digit_def)

lemma example_accepts:
  "filter (\<lambda>obj. spec_accepts 738530 2 (obj_key obj)) example_listing
     = [remote ''p/ranger/audit/20230108/a'' ''1'']"
proof -
  have nt: "\<not> spec_isDateLabel ''tests''" by (simp add: spec_isDateLabel_def)
  show ?thesis
    using label_20230108 label_20230107 label_20230109 nt
    by (simp add: example_listing_def remote_def spec_accepts_def spec_isInWindow_def
          key_a key_b key_c key_d key_t)
qed

lemma example_s3_listing: "s3_listing (\<lambda>b. example_listing) ''b/p'' = example_listing"
  by (simp add: s3_listing_def example_listing_def remote_def)

lemma example_store:
  "s3_store ''tmp_logs'' ''20230108'' ''a'' (remote ''p/ranger/audit/20230108/a'' ''1'') initial_world
     = (Inr (), example_staged)"
  by (simp add: s3_store_def initial_world_def example_staged_def remote_def mkdir_parents_def
        write_file_def path_join_def print_line_def)

subsection \<open>The two stores agree\<close>






lemma remote_sel: "obj_key (remote k d) = k" "obj_body (remote k d) = Some d"
  by (simp_all add: remote_def)

subsection \<open>Selection (C2)\<close>

text \<open>
  C2, as the code has it. Provided the start of the window, \<open>today - n\<close> days, is a date
  that exists (\<open>0 \<le> n < today\<close> as ordinals): when the partition segment of every listed
  object under the marker is a string of eight digits or a string that is_date_str rejects,
  download_s3_folder stores exactly the objects that pass the three checks (marker, valid
  date label in the window, non-empty filename), in listing order, and skips every other
  object without any effect.
\<close>

theorem download_s3_folder_selects:
  assumes "1 \<le> today" "today \<le> MAXORDINAL" "0 \<le> n" "n < today"
      and "list_all (\<lambda>obj. py_in ''ranger/audit'' (obj_key obj) \<longrightarrow>
                   eight_digits (partition_label (obj_key obj))
                   \<or> \<not> is_date_str (partition_label (obj_key obj)))
             (s3_listing bucket_objects s3_location)"
  shows "download_s3_folder today bucket_objects s3_location n ld w =
         for_each (\<lambda>obj. s3_store ld (partition_label (obj_key obj)) (file_name (obj_key obj)) obj)
           (filter (\<lambda>obj. spec_accepts today n (obj_key obj))
              (s3_listing bucket_objects s3_location)) w"
  unfolding download_s3_folder_def
  by (rule download_s3_folder_spec[OF sub_days_ok[OF assms(1-4)] assms(5)])

theorem download_s3_folder_selects_witness:
  "download_s3_folder 738530 (\<lambda>b. example_listing) ''b/p'' 2 ''tmp_logs'' initial_world
     = (Inr (), example_staged)"
proof -
  have h: "1 \<le> (738530::int)" "738530 \<le> MAXORDINAL" "0 \<le> (2::int)" "(2::int) < 738530"
    by (simp_all add: MAXORDINAL_def)
  have l: "list_all (\<lambda>obj. py_in ''ranger/audit'' (obj_key obj) \<longrightarrow>
                   eight_digits (partition_label (obj_key obj))
                   \<or> \<not> is_date_str (partition_label (obj_key obj)))
             (s3_listing (\<lambda>b. example_listing) ''b/p'')"
    by (simp only: example_s3_listing example_listing_labels)
  show ?thesis
    using download_s3_folder_selects[OF h l, of "''tmp_logs''" initial_world]
    by (simp add: example_s3_listing example_accepts example_store remote_sel key_a)
qed

text \<open>
  C2 as stated fails on two inputs: with a window of a million days the in-window object is
  not staged, the loop ends in OverflowError; and with a window of 30 days an object under
  the folder \<open>2023011\<close>, which is no date label, is staged.
\<close>

theorem download_step_not_only_three_checks:
  "spec_accepts (ymd2ord 2023 1 10) 1000000 ''p/ranger/audit/20230108/a''
   \<and> download_step s3_store (ymd2ord 2023 1 10) 1000000 ''tmp_logs''
        (remote ''p/ranger/audit/20230108/a'' ''1'') initial_world
      = (Inl OverflowError, initial_world)
   \<and> \<not> spec_accepts (ymd2ord 2023 1 10) 30 ''p/ranger/audit/2023011/s''
   \<and> staging (snd (download_step s3_store (ymd2ord 2023 1 10) 30 ''tmp_logs''
        (remote ''p/ranger/audit/2023011/s'' ''1'') initial_world))
      = RDir [(''2023011'', EDir [(''s'', LFile ''1'')])]"
proof -
  have a: "spec_accepts 738530 1000000 ''p/ranger/audit/20230108/a''"
    using label_20230108 by (simp add: spec_accepts_def spec_isInWindow_def key_a)
  have d8: "is_date_str ''20230108''"
    using label_20230108 spec_label_is_date_str by blast
  have "sub_days 738530 1000000 = Inl OverflowError" by (simp add: sub_days_def)
  from is_later_date_overflow[OF d8 this]
  have b: "download_step s3_store 738530 1000000 ''tmp_logs''
        (remote ''p/ranger/audit/20230108/a'' ''1'') initial_world
      = (Inl OverflowError, initial_world)"
    using d8 by (simp add: download_step_marker remote_def key_a)
  have c: "\<not> spec_accepts 738530 30 ''p/ranger/audit/2023011/s''"
    by (simp add: spec_accepts_def spec_isInWindow_def key_s spec_isDateLabel_def)
  have d7: "is_date_str ''2023011''" by (simp add: is_date_str_def strptime_2023011)
  have "is_later_date 738530 ''2023011'' 30 = Inr True"
    using d7 by (simp add: is_later_date_def strptime_2023011 get_days_ago_date_def sub_days_def
        MAXORDINAL_def ymd2ord_def days_before_year_def days_before_month_def)
  then have d: "staging (snd (download_step s3_store 738530 30 ''tmp_logs''
        (remote ''p/ranger/audit/2023011/s'' ''1'') initial_world))
      = RDir [(''2023011'', EDir [(''s'', LFile ''1'')])]"
    using d7 by (simp add: download_step_marker remote_def key_s s3_store_def initial_world_def
        mkdir_parents_def write_file_def print_line_def)
  from a b c d show ?thesis by (simp add: today_20230110)
qed

subsection \<open>Path segments (C10)\<close>

text \<open>
  C10. A path that contains the marker \<open>ranger/audit\<close> splits on \<open>/\<close> into at least two
  segments, so the partition label \<open>[-2]\<close> and the filename \<open>[-1]\<close> are defined; and the
  selection loop of either variant never ends in IndexError, whatever is listed.
\<close>

theorem marker_path_segments:
  "(py_in ''ranger/audit'' path \<longrightarrow>
      2 \<le> length (split_chr CHR ''/'' path)
      \<and> py_getitem (split_chr CHR ''/'' path) (- 2) = Inr (partition_label path)
      \<and> py_getitem (split_chr CHR ''/'' path) (- 1) = Inr (file_name path))
   \<and> fst (download_s3_folder today bucket_objects s3_location n ld w) \<noteq> Inl IndexError
   \<and> fst (for_each (download_step blob_store today n ld) listing w) \<noteq> Inl IndexError"
proof -
  have s3: "\<And>xs. fst (for_each (download_step s3_store today n ld) xs w) \<noteq> Inl IndexError"
  proof (rule for_each_never)
    fix xs x w'
    show "fst (download_step s3_store today n ld x w') \<noteq> Inl IndexError"
      using download_step_exn[of s3_store ld x today n w' IndexError] s3_store_exn by blast
  qed
  have blob: "fst (for_each (download_step blob_store today n ld) listing w) \<noteq> Inl IndexError"
  proof (rule for_each_never)
    fix x w'
    show "fst (download_step blob_store today n ld x w') \<noteq> Inl IndexError"
      using download_step_exn[of blob_store ld x today n w' IndexError] blob_store_exn by blast
  qed
  show ?thesis
    using s3 blob marker_segments marker_label split_file_name
    by (simp add: download_s3_folder_def)
qed

theorem marker_path_segments_witness:
  "py_in ''ranger/audit'' ''p/ranger/audit/20230108/a''
   \<and> 2 \<le> length (split_chr CHR ''/'' ''p/ranger/audit/20230108/a'')
   \<and> py_getitem (split_chr CHR ''/'' ''p/ranger/audit/20230108/a'') (- 2) = Inr ''20230108''
   \<and> py_getitem (split_chr CHR ''/'' ''p/ranger/audit/20230108/a'') (- 1) = Inr ''a''"
  using marker_path_segments[of "''p/ranger/audit/20230108/a''"] key_a
  by simp

subsection \<open>The two fetch variants (C7)\<close>



subsection \<open>The loader\<close>





lemma json_loads_empty: "json_loads [] = Inl JSONDecodeError"
  by (simp add: json_loads_def skip_ws_def scan_head_def)






lemma match_number_one: "match_number ''1'' = Inr (JInt 1, [])"
  by (simp add: match_number_def is_digit_def digits_val_def digit_val_def Let_def)



lemma scan_head_one: "scan_head ''1'' = Done (Inr (JInt 1, []))"
  by (simp add: scan_head_def match_number_one)








lemma scan_1: "scan_once (Suc n) ''1'' = Inr (JInt 1, [])"
  by (simp add: scan_head_one)



lemma loads_1: "json_loads ''1'' = Inr (JInt 1)"
proof -
  have f: "2 * length ''1'' + 2 = Suc 3" by simp
  have w: "skip_ws ''1'' = ''1''" by (simp add: skip_ws_def is_ws_def)
  show ?thesis unfolding json_loads_def f w scan_1 by (simp add: skip_ws_def)
qed

lemma cons_chr_exn: "cons_chr u res = Inl e \<Longrightarrow> res = Inl e"
  by (auto simp: cons_chr_def split: sum.splits prod.splits)

lemma scanstring_exn: "scanstring s = Inl e \<Longrightarrow> e = JSONDecodeError"
proof (induction s rule: scanstring.induct)
  case 1
  then show ?case by simp
next
  case (2 c cs)
  from "2.prems" show ?case
    by (auto split: if_splits list.splits option.splits
             dest!: cons_chr_exn intro: "2.IH")
qed


lemma match_number_exn: "match_number s = Inl e \<Longrightarrow> e = JSONDecodeError"
  by (simp add: match_number_def Let_def split: if_splits)

lemma scan_head_exn: "scan_head s = Done (Inl e) \<Longrightarrow> e = JSONDecodeError"
  by (auto simp: scan_head_def split: list.splits if_splits sum.splits prod.splits
           dest: scanstring_exn match_number_exn)

lemma object_key_exn: "object_key s = Inl e \<Longrightarrow> e = JSONDecodeError"
  by (auto simp: object_key_def split: list.splits if_splits sum.splits prod.splits
           dest: scanstring_exn)

lemma scan_once_exn:
  "scan_once n s = Inl e \<Longrightarrow> e = JSONDecodeError \<or> e = RecursionError"
  "parse_array n acc s = Inl e \<Longrightarrow> e = JSONDecodeError \<or> e = RecursionError"
  "parse_object n kvs s = Inl e \<Longrightarrow> e = JSONDecodeError \<or> e = RecursionError"
proof (induction n s and n acc s and n kvs s rule: scan_once_parse_array_parse_object.induct)
  case (1 s)
  then show ?case by simp
next
  case (2 n s)
  from "2.prems" show ?case
    by (auto split: head.splits dest: scan_head_exn "2.IH")
next
  case (3 acc s)
  then show ?case by simp
next
  case (4 n acc s)
  from "4.prems" show ?case
    by (auto split: sum.splits prod.splits after.splits dest: "4.IH")
next
  case (5 kvs s)
  then show ?case by simp
next
  case (6 n kvs s)
  from "6.prems" show ?case
    by (auto split: sum.splits prod.splits after.splits dest: object_key_exn "6.IH")
qed

lemma json_loads_exn: "json_loads s = Inl e \<Longrightarrow> e = JSONDecodeError \<or> e = RecursionError"
proof -
  assume a: "json_loads s = Inl e"
  show ?thesis
  proof (cases "scan_once (2 * length s + 2) (skip_ws s)")
    case (Inl e')
    with a have "e' = e" by (simp add: json_loads_def del: scan_once.simps)
    with Inl scan_once_exn(1) show ?thesis by blast
  next
    case (Inr p)
    with a show ?thesis
      by (cases p) (simp add: json_loads_def del: scan_once.simps split: if_splits)
  qed
qed

lemma map_exn_exn:
  assumes "\<And>x e. f x = Inl e \<Longrightarrow> P e"
  shows "map_exn f xs = Inl e \<Longrightarrow> P e"
  by (induction xs arbitrary: e) (auto split: sum.splits dest: assms)

lemma read_file_exn:
  "read_file_as_json_list content = Inl e \<Longrightarrow> e = JSONDecodeError \<or> e = RecursionError"
  unfolding read_file_as_json_list_def Let_def
  by (rule map_exn_exn[where f = json_loads]) (rule json_loads_exn)

subsection \<open>Records of a staged file (C4)\<close>







subsection \<open>An empty staged file (C5)\<close>

lemma read_file_empty: "read_file_as_json_list [] = Inl JSONDecodeError"
  by (simp add: read_file_as_json_list_def rstrip_nl_def json_loads_empty)

text \<open>
  C5, as the code has it. An empty file has one line, the empty string, which json.loads
  refuses: read_file_as_json_list raises JSONDecodeError, no insert call is sent for the
  file, and upload_to_solr ends with that error, the world unchanged.
\<close>

theorem upload_empty_file_raises:
  "read_file_as_json_list [] = Inl JSONDecodeError
   \<and> upload_file solr sp (name, LFile []) w = (Inl JSONDecodeError, w)
   \<and> upload_to_solr solr ld sp (w\<lparr>staging := RDir [(dir, EDir [(name, LFile [])])]\<rparr>)
       = (Inl JSONDecodeError, w\<lparr>staging := RDir [(dir, EDir [(name, LFile [])])]\<rparr>)"
  by (simp add: read_file_empty upload_file_def upload_to_solr_def upload_dir_def)

text \<open>
  C5 as stated fails: with a Solr that answers 200 to everything, the run over a staging
  directory that holds one empty file raises and sends no post.
\<close>

theorem upload_empty_file_sends_nothing:
  "upload_to_solr (\<lambda>url body. Some 200) ''tmp_logs'' ''host:8985''
      (initial_world\<lparr>staging := RDir [(''20230108'', EDir [(''a'', LFile [])])]\<rparr>)
   = (Inl JSONDecodeError,
      \<lparr>staging = RDir [(''20230108'', EDir [(''a'', LFile [])])], stdout = [], posts = []\<rparr>)"
  by (simp add: read_file_empty upload_file_def upload_to_solr_def upload_dir_def initial_world_def)

subsection \<open>Cleaning up (C9)\<close>

lemma remove_files_done: "remove_files fs = (Inr u, fs') \<Longrightarrow> fs' = []"
  by (induction fs rule: remove_files.induct) auto

lemma remove_entries_done: "remove_entries es = (Inr u, es') \<Longrightarrow> es' = []"
  by (induction es rule: remove_entries.induct) (auto split: prod.splits sum.splits)

lemma remove_files_exn: "remove_files fs = (Inl e, fs') \<Longrightarrow> e = OSError"
  by (induction fs rule: remove_files.induct) auto

lemma remove_entries_exn: "remove_entries es = (Inl e, es') \<Longrightarrow> e = OSError"
  by (induction es rule: remove_entries.induct)
     (auto split: prod.splits sum.splits dest: remove_files_exn)

lemma remove_dir_absent: "staging w = Absent \<Longrightarrow> remove_dir ld w = (Inr (), w)"
  by (simp add: remove_dir_def)

lemma remove_dir_empty:
  "staging w = RDir [] \<Longrightarrow> remove_dir ld w = (Inr (), print_line ''Removed /tmp_logs.'' w)"
  by (simp add: remove_dir_def print_line_def)

lemma remove_dir_done:
  assumes "remove_dir ld w = (Inr (), w')"
  shows "staging w' = Absent \<or> staging w' = RDir []"
proof (cases "staging w")
  case Absent
  with assms show ?thesis by (simp add: remove_dir_def)
next
  case RFile
  with assms show ?thesis by (simp add: remove_dir_def)
next
  case (RDir es)
  with assms show ?thesis
    by (auto simp: remove_dir_def print_line_def split: prod.splits sum.splits
             dest: remove_entries_done)
qed

text \<open>
  C9. remove_dir on a staging root that does not exist returns without an error and changes
  nothing. After a call that succeeded the staging root is absent or has no entry, and a
  second call succeeds again and leaves the staging root as it is (when the root exists, the
  second call prints its message again; it touches nothing else).
\<close>

theorem remove_dir_idempotent:
  "(staging w = Absent \<longrightarrow> remove_dir ld w = (Inr (), w))
   \<and> (remove_dir ld w = (Inr (), w') \<longrightarrow>
        (staging w' = Absent \<or> staging w' = RDir [])
        \<and> fst (remove_dir ld w') = Inr ()
        \<and> staging (snd (remove_dir ld w')) = staging w'
        \<and> posts (snd (remove_dir ld w')) = posts w')"
proof -
  have "remove_dir ld w = (Inr (), w') \<Longrightarrow>
        (staging w' = Absent \<or> staging w' = RDir [])
        \<and> fst (remove_dir ld w') = Inr ()
        \<and> staging (snd (remove_dir ld w')) = staging w'
        \<and> posts (snd (remove_dir ld w')) = posts w'"
  proof -
    assume "remove_dir ld w = (Inr (), w')"
    from remove_dir_done[OF this] show ?thesis
    proof
      assume "staging w' = Absent"
      then show ?thesis by (simp add: remove_dir_absent)
    next
      assume "staging w' = RDir []"
      then show ?thesis by (simp add: remove_dir_empty print_line_def)
    qed
  qed
  then show ?thesis using remove_dir_absent by blast
qed

theorem remove_dir_idempotent_witness:
  "remove_dir ''tmp_logs'' initial_world = (Inr (), initial_world)
   \<and> remove_dir ''tmp_logs'' example_staged
       = (Inr (), example_staged\<lparr>staging := RDir [],
                    stdout := stdout example_staged @ [Line ''Removed /tmp_logs.'']\<rparr>)
   \<and> fst (remove_dir ''tmp_logs'' (example_staged\<lparr>staging := RDir [],
                    stdout := stdout example_staged @ [Line ''Removed /tmp_logs.'']\<rparr>)) = Inr ()
   \<and> staging (snd (remove_dir ''tmp_logs'' (example_staged\<lparr>staging := RDir [],
                    stdout := stdout example_staged @ [Line ''Removed /tmp_logs.'']\<rparr>))) = RDir []"
proof -
  let ?w' = "example_staged\<lparr>staging := RDir [],
                    stdout := stdout example_staged @ [Line ''Removed /tmp_logs.'']\<rparr>"
  have a: "staging initial_world = Absent" by (simp add: initial_world_def)
  have b: "remove_dir ''tmp_logs'' example_staged = (Inr (), ?w')"
    by (simp add: remove_dir_def example_staged_def print_line_def)
  from remove_dir_idempotent[of initial_world "''tmp_logs''"] a
  have 1: "remove_dir ''tmp_logs'' initial_world = (Inr (), initial_world)" by blast
  from remove_dir_idempotent[of example_staged "''tmp_logs''" ?w'] b
  have 2: "fst (remove_dir ''tmp_logs'' ?w') = Inr ()
           \<and> staging (snd (remove_dir ''tmp_logs'' ?w')) = staging ?w'" by blast
  from 1 2 b show ?thesis by simp
qed

subsection \<open>Exceptions of the stages\<close>

lemma for_each_exn:
  assumes "\<And>x w e. x \<in> set xs \<Longrightarrow> fst (body x w) = Inl e \<Longrightarrow> P e"
  shows "fst (for_each body xs w) = Inl e \<Longrightarrow> P e"
  using assms
proof (induction xs arbitrary: w)
  case Nil
  then show ?case by simp
next
  case (Cons x xs)
  have step: "\<And>y w e. y \<in> set (x # xs) \<Longrightarrow> fst (body y w) = Inl e \<Longrightarrow> P e"
    using Cons.prems(2) by blast
  have run: "fst (for_each body (x # xs) w) = Inl e" by (rule Cons.prems(1))
  show ?case
  proof (cases "body x w")
    case (Pair r w')
    show ?thesis
    proof (cases r)
      case (Inl e')
      with Pair run have "e' = e" by simp
      with Inl Pair step[of x w e] show ?thesis by simp
    next
      case (Inr u)
      with Pair run have "fst (for_each body xs w') = Inl e" by simp
      moreover have "\<And>y w e. y \<in> set xs \<Longrightarrow> fst (body y w) = Inl e \<Longrightarrow> P e"
      proof -
        fix y w e
        assume "y \<in> set xs" "fst (body y w) = Inl e"
        then show "P e" using step[of y w e] by simp
      qed
      ultimately show ?thesis by (rule Cons.IH)
    qed
  qed
qed

lemma download_s3_folder_exn:
  assumes "fst (download_s3_folder today bo loc n ld w) = Inl e"
  shows "e = OSError \<or> e = ClientError \<or> e = OverflowError"
  using assms unfolding download_s3_folder_def
proof (rule for_each_exn[rotated])
  fix x w' e'
  assume "fst (download_step s3_store today n ld x w') = Inl e'"
  then show "e' = OSError \<or> e' = ClientError \<or> e' = OverflowError"
    using download_step_exn[of s3_store ld x today n w' e'] s3_store_exn by blast
qed

lemma blob_listing_exn: "blob_listing cb loc = Inl e \<Longrightarrow> e = IndexError"
  by (auto simp: blob_listing_def Let_def py_getitem_def split: if_splits sum.splits)

lemma download_blob_folder_exn:
  assumes "fst (download_blob_folder today cb loc n ld w) = Inl e"
  shows "e = OSError \<or> e = ClientError \<or> e = OverflowError \<or> e = IndexError"
proof (cases "blob_listing cb loc")
  case (Inl e')
  with assms blob_listing_exn[OF Inl] show ?thesis by (simp add: download_blob_folder_def)
next
  case (Inr listing)
  with assms have "fst (for_each (download_step blob_store today n ld) listing w) = Inl e"
    by (simp add: download_blob_folder_def)
  then have "e = OSError \<or> e = ClientError \<or> e = OverflowError"
  proof (rule for_each_exn[rotated])
    fix x w' e'
    assume "fst (download_step blob_store today n ld x w') = Inl e'"
    then show "e' = OSError \<or> e' = ClientError \<or> e' = OverflowError"
      using download_step_exn[of blob_store ld x today n w' e'] blob_store_exn by blast
  qed
  then show ?thesis by blast
qed

lemma upload_file_exn:
  assumes "fst (upload_file solr sp de w) = Inl e"
  shows "e = JSONDecodeError \<or> e = RecursionError \<or> e = ConnectionError \<or> e = HTTPError"
  using assms
  by (auto simp: upload_file_def send_solr_update_request_def raise_for_status_def Let_def
           split: leaf.splits sum.splits prod.splits option.splits if_splits
           dest: read_file_exn)

lemma upload_dir_exn:
  assumes "fst (upload_dir solr sp d w) = Inl e"
  shows "e = JSONDecodeError \<or> e = RecursionError \<or> e = ConnectionError \<or> e = HTTPError"
proof (cases "snd d")
  case (EFile c)
  with assms show ?thesis by (simp add: upload_dir_def)
next
  case (EDir files)
  with assms have "fst (for_each (upload_file solr sp) files w) = Inl e"
    by (simp add: upload_dir_def)
  then show ?thesis
    by (rule for_each_exn[rotated]) (rule upload_file_exn)
qed

lemma upload_to_solr_exn:
  assumes "fst (upload_to_solr solr ld sp w) = Inl e"
  shows "e = JSONDecodeError \<or> e = RecursionError \<or> e = ConnectionError \<or> e = HTTPError
         \<or> e = OSError"
proof (cases "staging w")
  case Absent
  with assms show ?thesis by (simp add: upload_to_solr_def)
next
  case RFile
  with assms show ?thesis by (simp add: upload_to_solr_def)
next
  case (RDir dirs)
  with assms have "fst (for_each (upload_dir solr sp) dirs w) = Inl e"
    by (simp add: upload_to_solr_def)
  then have "e = JSONDecodeError \<or> e = RecursionError \<or> e = ConnectionError \<or> e = HTTPError"
    by (rule for_each_exn[rotated]) (rule upload_dir_exn)
  then show ?thesis by blast
qed

lemma fetch_stage_exn:
  assumes "fst (fetch_stage ev ui w) = Inl e"
  shows "e = OSError \<or> e = ClientError \<or> e = OverflowError \<or> e = IndexError
         \<or> (e = ValueError \<and> lower (cloud_type ui) \<noteq> ''aws'' \<and> lower (cloud_type ui) \<noteq> ''azure'')"
  using assms download_s3_folder_exn download_blob_folder_exn
  by (fastforce simp: fetch_stage_def split: if_splits)

lemma try_body_exn:
  assumes "fst (try_body ev (Inr ui) w) = Inl e"
  shows "e = OSError \<or> e = ClientError \<or> e = OverflowError \<or> e = IndexError
         \<or> e = JSONDecodeError \<or> e = RecursionError \<or> e = ConnectionError \<or> e = HTTPError
         \<or> (e = ValueError \<and> lower (cloud_type ui) \<noteq> ''aws'' \<and> lower (cloud_type ui) \<noteq> ''azure'')"
proof (cases "fetch_stage ev ui w")
  case (Pair r w1)
  show ?thesis
  proof (cases r)
    case (Inl e')
    with Pair assms have "e' = e" by (simp add: try_body_def)
    with Inl Pair fetch_stage_exn[of ev ui w e] show ?thesis by auto
  next
    case (Inr u)
    with Pair assms have "fst (upload_to_solr (env_solr ev) LOCAL_DIR (solr_path ui) w1) = Inl e"
      by (simp add: try_body_def)
    from upload_to_solr_exn[OF this] show ?thesis by blast
  qed
qed

lemma try_body_is_Exception:
  "fst (try_body ev (Inr ui) w) = Inl e \<Longrightarrow> is_Exception e"
  using try_body_exn[of ev ui w e] by auto

subsection \<open>Lower case\<close>

lemma lower_chr_letter:
  assumes "97 \<le> (of_char k :: nat)" "(of_char k :: nat) \<le> 122"
  shows "lower_chr c = k \<longleftrightarrow> c = k \<or> (of_char c :: nat) + 32 = of_char k"
proof -
  let ?n = "of_char c :: nat"
  show ?thesis
  proof (cases "(65 \<le> ?n \<and> ?n \<le> 90) \<or> (192 \<le> ?n \<and> ?n \<le> 222 \<and> ?n \<noteq> 215)")
    case True
    have l: "lower_chr c = char_of (?n + 32)"
      unfolding lower_chr_def Let_def by (simp only: True if_True)
    have "?n + 32 < 2 ^ 8" using True by auto
    then have "take_bit 8 (?n + 32) = ?n + 32" by (rule take_bit_nat_eq_self)
    then have "(char_of (?n + 32) = k) = (?n + 32 = of_char k)"
      by (simp add: char_of_eq_iff)
    moreover have "c \<noteq> k" using True assms by auto
    ultimately show ?thesis using l by simp
  next
    case False
    have l: "lower_chr c = c" unfolding lower_chr_def Let_def by (simp only: False if_False)
    have "?n + 32 \<noteq> of_char k" using False assms by auto
    then show ?thesis using l by simp
  qed
qed

lemma lower_letters:
  "lower_chr c = CHR ''a'' \<longleftrightarrow> c = CHR ''a'' \<or> c = CHR ''A''"
  "lower_chr c = CHR ''w'' \<longleftrightarrow> c = CHR ''w'' \<or> c = CHR ''W''"
  "lower_chr c = CHR ''s'' \<longleftrightarrow> c = CHR ''s'' \<or> c = CHR ''S''"
  "lower_chr c = CHR ''z'' \<longleftrightarrow> c = CHR ''z'' \<or> c = CHR ''Z''"
  "lower_chr c = CHR ''u'' \<longleftrightarrow> c = CHR ''u'' \<or> c = CHR ''U''"
  "lower_chr c = CHR ''r'' \<longleftrightarrow> c = CHR ''r'' \<or> c = CHR ''R''"
  "lower_chr c = CHR ''e'' \<longleftrightarrow> c = CHR ''e'' \<or> c = CHR ''E''"
proof -
  have u: "\<And>m d. (of_char d :: nat) = m \<Longrightarrow> ((of_char c :: nat) = m) = (c = d)"
    by (auto simp: of_char_eq_iff[symmetric, where ?'a = nat])
  show "lower_chr c = CHR ''a'' \<longleftrightarrow> c = CHR ''a'' \<or> c = CHR ''A''"
    using lower_chr_letter[of "CHR ''a''" c] u[of "CHR ''A''" 65] by simp
  show "lower_chr c = CHR ''w'' \<longleftrightarrow> c = CHR ''w'' \<or> c = CHR ''W''"
    using lower_chr_letter[of "CHR ''w''" c] u[of "CHR ''W''" 87] by simp
  show "lower_chr c = CHR ''s'' \<longleftrightarrow> c = CHR ''s'' \<or> c = CHR ''S''"
    using lower_chr_letter[of "CHR ''s''" c] u[of "CHR ''S''" 83] by simp
  show "lower_chr c = CHR ''z'' \<longleftrightarrow> c = CHR ''z'' \<or> c = CHR ''Z''"
    using lower_chr_letter[of "CHR ''z''" c] u[of "CHR ''Z''" 90] by simp
  show "lower_chr c = CHR ''u'' \<longleftrightarrow> c = CHR ''u'' \<or> c = CHR ''U''"
    using lower_chr_letter[of "CHR ''u''" c] u[of "CHR ''U''" 85] by simp
  show "lower_chr c = CHR ''r'' \<longleftrightarrow> c = CHR ''r'' \<or> c = CHR ''R''"
    using lower_chr_letter[of "CHR ''r''" c] u[of "CHR ''R''" 82] by simp
  show "lower_chr c = CHR ''e'' \<longleftrightarrow> c = CHR ''e'' \<or> c = CHR ''E''"
    using lower_chr_letter[of "CHR ''e''" c] u[of "CHR ''E''" 69] by simp
qed

lemma len3: "length s = 3 \<Longrightarrow> \<exists>a b c. s = [a, b, c]"
  by (auto simp: length_Suc_conv eval_nat_numeral)

lemma len5: "length s = 5 \<Longrightarrow> \<exists>a b c d e. s = [a, b, c, d, e]"
  by (auto simp: length_Suc_conv eval_nat_numeral)

lemma lower_aws:
  "lower s = ''aws'' \<longleftrightarrow>
     (\<exists>a w z. s = [a, w, z] \<and> (a = CHR ''a'' \<or> a = CHR ''A'') \<and> (w = CHR ''w'' \<or> w = CHR ''W'')
        \<and> (z = CHR ''s'' \<or> z = CHR ''S''))"
proof
  assume l: "lower s = ''aws''"
  then have "length (lower s) = 3" by simp
  then have "length s = 3" by (simp add: lower_def)
  from len3[OF this] obtain a w z where s: "s = [a, w, z]" by blast
  from l have "lower_chr a = CHR ''a''" "lower_chr w = CHR ''w''" "lower_chr z = CHR ''s''"
    unfolding s lower_def by simp_all
  then show "\<exists>a w z. s = [a, w, z] \<and> (a = CHR ''a'' \<or> a = CHR ''A'')
      \<and> (w = CHR ''w'' \<or> w = CHR ''W'') \<and> (z = CHR ''s'' \<or> z = CHR ''S'')"
    unfolding lower_letters using s by blast
next
  assume "\<exists>a w z. s = [a, w, z] \<and> (a = CHR ''a'' \<or> a = CHR ''A'')
      \<and> (w = CHR ''w'' \<or> w = CHR ''W'') \<and> (z = CHR ''s'' \<or> z = CHR ''S'')"
  then obtain a w z where s: "s = [a, w, z]"
    and "lower_chr a = CHR ''a''" "lower_chr w = CHR ''w''" "lower_chr z = CHR ''s''"
    unfolding lower_letters by blast
  then show "lower s = ''aws''" by (simp add: lower_def)
qed

lemma lower_azure:
  "lower s = ''azure'' \<longleftrightarrow>
     (\<exists>a z u r e. s = [a, z, u, r, e] \<and> (a = CHR ''a'' \<or> a = CHR ''A'')
        \<and> (z = CHR ''z'' \<or> z = CHR ''Z'') \<and> (u = CHR ''u'' \<or> u = CHR ''U'')
        \<and> (r = CHR ''r'' \<or> r = CHR ''R'') \<and> (e = CHR ''e'' \<or> e = CHR ''E''))"
proof
  assume l: "lower s = ''azure''"
  then have "length (lower s) = 5" by simp
  then have "length s = 5" by (simp add: lower_def)
  from len5[OF this] obtain a z u r e where s: "s = [a, z, u, r, e]" by blast
  from l have "lower_chr a = CHR ''a''" "lower_chr z = CHR ''z''" "lower_chr u = CHR ''u''"
      "lower_chr r = CHR ''r''" "lower_chr e = CHR ''e''"
    unfolding s lower_def by simp_all
  then show "\<exists>a z u r e. s = [a, z, u, r, e] \<and> (a = CHR ''a'' \<or> a = CHR ''A'')
        \<and> (z = CHR ''z'' \<or> z = CHR ''Z'') \<and> (u = CHR ''u'' \<or> u = CHR ''U'')
        \<and> (r = CHR ''r'' \<or> r = CHR ''R'') \<and> (e = CHR ''e'' \<or> e = CHR ''E'')"
    unfolding lower_letters using s by blast
next
  assume "\<exists>a z u r e. s = [a, z, u, r, e] \<and> (a = CHR ''a'' \<or> a = CHR ''A'')
        \<and> (z = CHR ''z'' \<or> z = CHR ''Z'') \<and> (u = CHR ''u'' \<or> u = CHR ''U'')
        \<and> (r = CHR ''r'' \<or> r = CHR ''R'') \<and> (e = CHR ''e'' \<or> e = CHR ''E'')"
  then obtain a z u r e where s: "s = [a, z, u, r, e]"
    and "lower_chr a = CHR ''a''" "lower_chr z = CHR ''z''" "lower_chr u = CHR ''u''"
      "lower_chr r = CHR ''r''" "lower_chr e = CHR ''e''"
    unfolding lower_letters by blast
  then show "lower s = ''azure''" by (simp add: lower_def)
qed

subsection \<open>The example run\<close>

lemma lower_AWS: "lower ''AWS'' = ''aws''"
  using lower_aws[of "''AWS''"] by simp

lemma lower_gcp: "lower ''gcp'' \<noteq> ''aws'' \<and> lower ''gcp'' \<noteq> ''azure''"
  using lower_aws[of "''gcp''"] lower_azure[of "''gcp''"] by simp

lemma example_fetch:
  "download_s3_folder 738530 (\<lambda>b. example_listing) ''b/p'' 2 ''tmp_logs'' initial_world
     = (Inr (), example_staged)"
proof -
  have win: "sub_days 738530 2 = Inr (738530 - 2)" by (simp add: sub_days_def MAXORDINAL_def)
  from download_s3_folder_spec[OF win example_listing_labels, of s3_store "''tmp_logs''" initial_world]
  show ?thesis
    by (simp add: download_s3_folder_def example_s3_listing example_accepts example_store
          remote_sel key_a)
qed

lemma read_file_1: "read_file_as_json_list ''1'' = Inr [JInt 1]"
  by (simp add: read_file_as_json_list_def rstrip_nl_def loads_1)

lemma example_upload_500:
  "upload_to_solr (\<lambda>url body. Some 500) ''tmp_logs'' ''h:8985'' example_staged
     = (Inl HTTPError,
        example_staged\<lparr>posts := [(''https://h:8985/solr/ranger_audits/update'', [JInt 1])]\<rparr>)"
  by (simp add: upload_to_solr_def upload_dir_def upload_file_def example_staged_def read_file_1
        send_solr_update_request_def raise_for_status_def)

lemma example_try_body_500:
  "try_body (example_env 500) (Inr (example_inputs ''AWS'')) initial_world
     = (Inl HTTPError,
        example_staged\<lparr>posts := [(''https://h:8985/solr/ranger_audits/update'', [JInt 1])]\<rparr>)"
  by (simp add: try_body_def fetch_stage_def example_env_def example_inputs_def lower_AWS
        LOCAL_DIR_def example_fetch example_upload_500)

lemma remove_dir_stdout: "set (stdout w) \<subseteq> set (stdout (snd (remove_dir ld w)))"
  by (auto simp: remove_dir_def print_line_def split: root.splits prod.splits sum.splits)

subsection \<open>The orchestrator (C1)\<close>

text \<open>
  C1. Whatever the fetch stage or the load stage raises, main prints it and goes on to
  remove_dir: the outcome of main and the world it leaves are those of remove_dir, run on
  the world the stages left (with the report printed). So an exception of the stages never
  leaves main, the cleanup runs on every path, and an exception of the cleanup is the
  outcome of main.
\<close>

theorem main_reports_and_cleans:
  "main ev (Inr ui) w =
     (case try_body ev (Inr ui) w of
        (Inl ex, w1) \<Rightarrow> remove_dir LOCAL_DIR (print_exn ex w1)
      | (Inr u, w1) \<Rightarrow> remove_dir LOCAL_DIR w1)
   \<and> (fst (try_body ev (Inr ui) w) = Inl ex \<longrightarrow>
        Reported ex \<in> set (stdout (snd (main ev (Inr ui) w))))"
proof -
  have eq: "main ev (Inr ui) w =
     (case try_body ev (Inr ui) w of
        (Inl ex, w1) \<Rightarrow> remove_dir LOCAL_DIR (print_exn ex w1)
      | (Inr u, w1) \<Rightarrow> remove_dir LOCAL_DIR w1)"
  proof (cases "try_body ev (Inr ui) w")
    case (Pair r w1)
    show ?thesis
    proof (cases r)
      case (Inl e)
      with Pair have "is_Exception e" using try_body_is_Exception[of ev ui w e] by simp
      with Inl Pair show ?thesis
        by (cases "remove_dir LOCAL_DIR (print_exn e w1)")
           (auto simp: main_def split: sum.splits)
    next
      case (Inr u)
      with Pair show ?thesis
        by (cases "remove_dir LOCAL_DIR w1") (auto simp: main_def split: sum.splits)
    qed
  qed
  have rep: "fst (try_body ev (Inr ui) w) = Inl ex \<Longrightarrow>
        Reported ex \<in> set (stdout (snd (main ev (Inr ui) w)))"
  proof -
    assume a: "fst (try_body ev (Inr ui) w) = Inl ex"
    obtain w1 where t: "try_body ev (Inr ui) w = (Inl ex, w1)"
      using a by (cases "try_body ev (Inr ui) w") auto
    have "Reported ex \<in> set (stdout (print_exn ex w1))" by (simp add: print_exn_def)
    with remove_dir_stdout[of "print_exn ex w1" LOCAL_DIR] show ?thesis
      unfolding eq t by auto
  qed
  from eq rep show ?thesis by blast
qed

theorem main_reports_and_cleans_witness:
  "main (example_env 500) (Inr (example_inputs ''AWS'')) initial_world
     = (Inr (),
        \<lparr>staging = RDir [],
         stdout = [Line ''Downloaded file: a to tmp_logs/20230108'', Reported HTTPError,
                   Line ''Removed /tmp_logs.''],
         posts = [(''https://h:8985/solr/ranger_audits/update'', [JInt 1])]\<rparr>)
   \<and> Reported HTTPError
       \<in> set (stdout (snd (main (example_env 500) (Inr (example_inputs ''AWS'')) initial_world)))"
proof -
  have f: "fst (try_body (example_env 500) (Inr (example_inputs ''AWS'')) initial_world) = Inl HTTPError"
    by (simp add: example_try_body_500)
  from main_reports_and_cleans[of "example_env 500" "example_inputs ''AWS''" initial_world HTTPError] f
  show ?thesis
    by (simp add: example_try_body_500 remove_dir_def LOCAL_DIR_def print_exn_def print_line_def
          example_staged_def)
qed

subsection \<open>The cloud type (C8)\<close>

text \<open>
  C8. The cloud type is compared in lower case with \<open>aws\<close> and with \<open>azure\<close>: a value is
  accepted exactly when it is one of the two words, in any mix of upper and lower case. For
  every other value the \<open>try\<close> body raises ValueError at once, with the world as it was:
  nothing is fetched, nothing is written to the staging directory and nothing is posted.
  ValueError comes from nowhere else.
\<close>

theorem cloud_type_checked_first:
  "(lower (cloud_type ui) \<noteq> ''aws'' \<and> lower (cloud_type ui) \<noteq> ''azure'' \<longrightarrow>
      try_body ev (Inr ui) w = (Inl ValueError, w))
   \<and> (fst (try_body ev (Inr ui) w) = Inl ValueError \<longrightarrow>
        lower (cloud_type ui) \<noteq> ''aws'' \<and> lower (cloud_type ui) \<noteq> ''azure'')
   \<and> (lower (cloud_type ui) = ''aws'' \<longrightarrow>
        fetch_stage ev ui w = download_s3_folder (env_today ev) (env_bucket_objects ev)
                                (storage_location ui) (days_ago ui) LOCAL_DIR w)
   \<and> (lower (cloud_type ui) = ''azure'' \<longrightarrow>
        fetch_stage ev ui w = download_blob_folder (env_today ev) (env_container_blobs ev)
                                (storage_location ui) (days_ago ui) LOCAL_DIR w)
   \<and> (lower (cloud_type ui) = ''aws'' \<longleftrightarrow>
        (\<exists>a w z. cloud_type ui = [a, w, z] \<and> (a = CHR ''a'' \<or> a = CHR ''A'')
           \<and> (w = CHR ''w'' \<or> w = CHR ''W'') \<and> (z = CHR ''s'' \<or> z = CHR ''S'')))
   \<and> (lower (cloud_type ui) = ''azure'' \<longleftrightarrow>
        (\<exists>a z u r e. cloud_type ui = [a, z, u, r, e] \<and> (a = CHR ''a'' \<or> a = CHR ''A'')
           \<and> (z = CHR ''z'' \<or> z = CHR ''Z'') \<and> (u = CHR ''u'' \<or> u = CHR ''U'')
           \<and> (r = CHR ''r'' \<or> r = CHR ''R'') \<and> (e = CHR ''e'' \<or> e = CHR ''E'')))"
proof -
  have 1: "lower (cloud_type ui) \<noteq> ''aws'' \<and> lower (cloud_type ui) \<noteq> ''azure'' \<Longrightarrow>
      try_body ev (Inr ui) w = (Inl ValueError, w)"
    by (simp add: try_body_def fetch_stage_def)
  have 2: "fst (try_body ev (Inr ui) w) = Inl ValueError \<Longrightarrow>
        lower (cloud_type ui) \<noteq> ''aws'' \<and> lower (cloud_type ui) \<noteq> ''azure''"
    using try_body_exn[of ev ui w ValueError] by simp
  have 3: "lower (cloud_type ui) = ''aws'' \<Longrightarrow>
        fetch_stage ev ui w = download_s3_folder (env_today ev) (env_bucket_objects ev)
                                (storage_location ui) (days_ago ui) LOCAL_DIR w"
    by (simp add: fetch_stage_def)
  have 4: "lower (cloud_type ui) = ''azure'' \<Longrightarrow>
        fetch_stage ev ui w = download_blob_folder (env_today ev) (env_container_blobs ev)
                                (storage_location ui) (days_ago ui) LOCAL_DIR w"
    by (simp add: fetch_stage_def)
  from 1 2 3 4 lower_aws[of "cloud_type ui"] lower_azure[of "cloud_type ui"]
  show ?thesis by blast
qed

theorem cloud_type_checked_first_witness:
  "try_body (example_env 200) (Inr (example_inputs ''gcp'')) initial_world
     = (Inl ValueError, initial_world)
   \<and> fetch_stage (example_env 200) (example_inputs ''AWS'') initial_world
     = (Inr (), example_staged)"
proof -
  have c: "cloud_type (example_inputs ''gcp'') = ''gcp''" "cloud_type (example_inputs ''AWS'') = ''AWS''"
    by (simp_all add: example_inputs_def)
  from cloud_type_checked_first[of "example_inputs ''gcp''" "example_env 200" initial_world]
  have a: "try_body (example_env 200) (Inr (example_inputs ''gcp'')) initial_world
     = (Inl ValueError, initial_world)"
    using lower_gcp unfolding c by blast
  from cloud_type_checked_first[of "example_inputs ''AWS''" "example_env 200" initial_world]
  have "fetch_stage (example_env 200) (example_inputs ''AWS'') initial_world
        = download_s3_folder (env_today (example_env 200)) (env_bucket_objects (example_env 200))
            (storage_location (example_inputs ''AWS'')) (days_ago (example_inputs ''AWS''))
            LOCAL_DIR initial_world"
    using lower_AWS unfolding c by blast
  then have b: "fetch_stage (example_env 200) (example_inputs ''AWS'') initial_world
     = (Inr (), example_staged)"
    by (simp add: example_env_def example_inputs_def LOCAL_DIR_def example_fetch)
  from a b show ?thesis by simp
qed

end
